theory Spec2Isabelle
  imports Main "HOL-Library.Sublist"
begin

section \<open>Parameter adaptation: \<open>is_subset_of\<close>, \<open>find_all_index\<close>, \<open>TupleTake\<close>\<close>

text \<open>
  A parameter type as it is written in a slot or signal signature: a base type with the
  reference and const qualifiers that \<open>std::decay_t\<close> strips.
\<close>

datatype 'b param_type =
    ByValue 'b
  | ConstValue 'b
  | LRef 'b
  | ConstLRef 'b
  | RRef 'b

fun decay_t :: "'b param_type \<Rightarrow> 'b" where
  "decay_t (ByValue b) = b"
| "decay_t (ConstValue b) = b"
| "decay_t (LRef b) = b"
| "decay_t (ConstLRef b) = b"
| "decay_t (RRef b) = b"

text \<open>
  \<open>is_subset_of<std::tuple<Subset...>, std::tuple<Superset...>>::value\<close>. The partial
  specialisations, most specialised first: both tuples empty; the subset empty; the
  superset empty; equal heads (both are consumed); different heads (the head of the
  superset is dropped and the subset is kept whole).
\<close>

fun is_subset_of :: "'a list \<Rightarrow> 'a list \<Rightarrow> bool" where
  "is_subset_of [] [] = True"
| "is_subset_of [] (U # Superset) = True"
| "is_subset_of (T # Subset) [] = False"
| "is_subset_of (T # Subset) (U # Superset) =
     (if T = U then is_subset_of Subset Superset
      else is_subset_of (T # Subset) Superset)"

text \<open>
  \<open>find_next_index<N, T, std::tuple<...>>::value\<close>: the first index greater than \<open>N\<close>
  at which the tuple holds the type \<open>T\<close>. There is no specialisation for the empty tuple,
  so running off the end is a compilation failure (\<open>None\<close>).
\<close>

fun find_next_index :: "int \<Rightarrow> 'a \<Rightarrow> 'a list \<Rightarrow> int option" where
  "find_next_index N T [] = None"
| "find_next_index N T (U # Args) =
     (if N = - 1 then
        (if U = T then Some 0
         else map_option (\<lambda>v. v + 1) (find_next_index (- 1) T Args))
      else map_option (\<lambda>v. v + 1) (find_next_index (N - 1) T Args))"

text \<open>
  \<open>find_all_index<N, Subset, Superset>::value\<close>: for each type of the subset in turn, the
  next index of that type in the superset after the index chosen for its predecessor.
\<close>

fun find_all_index :: "int \<Rightarrow> 'a list \<Rightarrow> 'a list \<Rightarrow> int list option" where
  "find_all_index N [] Superset = Some []"
| "find_all_index N (T # Subset) Superset =
     (case find_next_index N T Superset of
        None \<Rightarrow> None
      | Some i \<Rightarrow>
          (case find_all_index i Subset Superset of
             None \<Rightarrow> None
           | Some l \<Rightarrow> Some (i # l)))"

text \<open>
  \<open>int_list<Args...>::MakeTupleByList(target)\<close>: \<open>std::get<i>(target)\<close> for each index;
  an index outside the tuple does not compile.
\<close>

fun MakeTupleByList :: "int list \<Rightarrow> 'v list \<Rightarrow> 'v list option" where
  "MakeTupleByList [] target = Some []"
| "MakeTupleByList (i # Args) target =
     (if 0 \<le> i \<and> nat i < length target then
        (case MakeTupleByList Args target of
           None \<Rightarrow> None
         | Some vs \<Rightarrow> Some (target ! nat i # vs))
      else None)"

datatype compile_error = StaticAssertFailed | IllFormed

text \<open>
  \<open>TupleTake(func, target)\<close>: \<open>Subset\<close> are the parameter types of \<open>func\<close>, \<open>Superset\<close>
  the element types of the tuple \<open>target\<close>. The result is the argument list handed to
  \<open>func\<close> by \<open>std::apply\<close>, or the failure of the check that the library itself makes
  (the \<open>static_assert\<close>, and the index templates being defined). Whether the language
  lets each selected argument bind to the parameter of \<open>func\<close> is not part of the
  model: the selected arguments have the parameters' decayed types.
\<close>

definition TupleTake ::
  "'b param_type list \<Rightarrow> 'b param_type list \<Rightarrow> 'v list \<Rightarrow> compile_error + 'v list" where
  "TupleTake Subset Superset target =
     (let SubsetTuple = map decay_t Subset;
          SupersetTuple = map decay_t Superset
      in if is_subset_of SubsetTuple SupersetTuple then
           (case find_all_index (- 1) SubsetTuple SupersetTuple of
              None \<Rightarrow> Inl IllFormed
            | Some IndexList \<Rightarrow>
                (case MakeTupleByList IndexList target of
                   None \<Rightarrow> Inl IllFormed
                 | Some vs \<Rightarrow> Inr vs))
         else Inl StaticAssertFailed)"

text \<open>
  \<open>EventHandler::operator()\<close>. The callable form (a free function or a lambda) is
  \<open>TupleTake\<close> on the emitted arguments. The member-function form puts the receiver
  pointer (of type \<open>T*\<close>, here \<open>recv_ty\<close>) in front of both the slot's parameters and
  the arguments.
\<close>

definition EventHandler_member ::
  "'b \<Rightarrow> 'v \<Rightarrow> 'b param_type list \<Rightarrow> 'b param_type list \<Rightarrow> 'v list
     \<Rightarrow> compile_error + 'v list" where
  "EventHandler_member recv_ty m_Receiver SlotArgs Args args =
     TupleTake (ByValue recv_ty # SlotArgs) (ByValue recv_ty # Args) (m_Receiver # args)"

section \<open>Threads, addresses and the event-loop registry\<close>

datatype ConnectionType =
    AutoConnection
  | DirectConnection
  | QueuedConnection
  | BlockingQueuedConnection

text \<open>
  A \<open>std::thread::id\<close> and a raw pointer (an object, an \<open>EventLoop\<close>, the bit pattern of
  a function or member pointer) are numbers; the pointer \<open>0\<close> is \<open>nullptr\<close>.
\<close>

type_synonym thread_id = nat
type_synonym pointer = nat

text \<open>\<open>struct Address\<close>: \<open>object\<close> and \<open>function.address\<close>, compared field by field.\<close>

record Address =
  object_a :: pointer
  function_a :: pointer

text \<open>
  \<open>std::unordered_map::insert\<close> and \<open>std::map::insert\<close> on a map looked up by key: the
  element is inserted only when the container holds no element with that key.
\<close>

definition map_insert :: "'k \<Rightarrow> 'v \<Rightarrow> ('k \<rightharpoonup> 'v) \<Rightarrow> ('k \<rightharpoonup> 'v)" where
  "map_insert k v m = (case m k of None \<Rightarrow> m(k \<mapsto> v) | Some old \<Rightarrow> m)"

text \<open>
  \<open>EventLoopManager\<close>: the field \<open>m_EventLoops\<close> maps a thread id to the \<open>EventLoop*\<close>
  registered for it. \<open>this_thread\<close> stands for \<open>std::this_thread::get_id()\<close>.
\<close>

definition AddEventLoop ::
  "thread_id \<Rightarrow> pointer \<Rightarrow> (thread_id \<rightharpoonup> pointer) \<Rightarrow> (thread_id \<rightharpoonup> pointer)" where
  "AddEventLoop this_thread loop m_EventLoops = map_insert this_thread loop m_EventLoops"

definition RemoveEventLoop ::
  "thread_id \<Rightarrow> (thread_id \<rightharpoonup> pointer) \<Rightarrow> (thread_id \<rightharpoonup> pointer)" where
  "RemoveEventLoop this_thread m_EventLoops =
     (if m_EventLoops this_thread \<noteq> None then m_EventLoops(this_thread := None)
      else m_EventLoops)"

text \<open>\<open>GetEventLoop(id)\<close>: \<open>None\<close> is the \<open>nullptr\<close> returned for an unregistered thread.\<close>

definition GetEventLoop :: "(thread_id \<rightharpoonup> pointer) \<Rightarrow> thread_id \<Rightarrow> pointer option" where
  "GetEventLoop m_EventLoops id_t =
     (if m_EventLoops id_t \<noteq> None then m_EventLoops id_t else None)"

section \<open>Signal: the handler container and \<open>Emit\<close>\<close>

text \<open>
  The type-erased \<open>EventHandler\<close> held by a handler: a receiver with a member-function
  pointer, or a callable (a free function, or a lambda identified by its call operator).
\<close>

datatype EventHandler =
    MemberHandler pointer pointer
  | CallableHandler pointer

text \<open>\<open>Signal::Handler\<close>: the fields \<open>id\<close>, \<open>handler\<close> and \<open>type\<close>.\<close>

record Handler =
  id_h :: thread_id
  handler_h :: EventHandler
  type_h :: ConnectionType

text \<open>
  \<open>m_Handlers\<close> is a \<open>std::unordered_map<Address, Handler, AddressHash>\<close>. It is modelled
  by the list of its elements in iteration order. The language standard fixes that a
  range-for visits every element once and that \<open>erase\<close> keeps the relative order of the
  remaining elements; where a new element lands in the iteration sequence is decided by
  the library from the hash of the key and the bucket count. That decision is the
  parameter \<open>place\<close>: the position (counted from the front) given to a new key. An
  insertion that makes the table rehash may in addition reorder the elements already
  there, which the model leaves out: what is proved for every \<open>place\<close> below speaks
  of the set of elements, of lookups by key and of counts, none of which depends on
  the order.
\<close>

type_synonym ('k, 'v) unordered_map = "('k \<times> 'v) list"
type_synonym ('k, 'v) placement = "'k \<Rightarrow> ('k \<times> 'v) list \<Rightarrow> nat"

text \<open>
  Two containers for examples: one links a new element in front of all others, one
  behind all others.
\<close>

definition place_front :: "('k, 'v) placement" where
  "place_front k m = 0"

definition place_back :: "('k, 'v) placement" where
  "place_back k m = length m"

definition count_u :: "('k, 'v) unordered_map \<Rightarrow> 'k \<Rightarrow> nat" where
  "count_u m k = length (filter (\<lambda>e. fst e = k) m)"

definition insert_u ::
  "('k, 'v) placement \<Rightarrow> 'k \<times> 'v \<Rightarrow> ('k, 'v) unordered_map \<Rightarrow> ('k, 'v) unordered_map" where
  "insert_u place e m =
     (if count_u m (fst e) \<noteq> 0 then m
      else take (place (fst e) m) m @ e # drop (place (fst e) m) m)"

definition erase_u :: "'k \<Rightarrow> ('k, 'v) unordered_map \<Rightarrow> ('k, 'v) unordered_map" where
  "erase_u k m = filter (\<lambda>e. fst e \<noteq> k) m"

definition AddHandler ::
  "(Address, Handler) placement \<Rightarrow> Address \<Rightarrow> Handler
     \<Rightarrow> (Address, Handler) unordered_map \<Rightarrow> (Address, Handler) unordered_map" where
  "AddHandler place address v_handler m_Handlers =
     (if count_u m_Handlers address = 0 then insert_u place (address, v_handler) m_Handlers
      else m_Handlers)"

definition RemoveHandler ::
  "Address \<Rightarrow> (Address, Handler) unordered_map \<Rightarrow> (Address, Handler) unordered_map" where
  "RemoveHandler address m_Handlers =
     (if count_u m_Handlers address \<noteq> 0 then erase_u address m_Handlers else m_Handlers)"

text \<open>A run of \<open>AddHandler\<close> calls on one signal, first call first.\<close>

fun AddHandlers ::
  "(Address, Handler) placement \<Rightarrow> (Address \<times> Handler) list
     \<Rightarrow> (Address, Handler) unordered_map \<Rightarrow> (Address, Handler) unordered_map" where
  "AddHandlers place [] m_Handlers = m_Handlers"
| "AddHandlers place (e # es) m_Handlers =
     AddHandlers place es (AddHandler place (fst e) (snd e) m_Handlers)"

text \<open>
  What one iteration of the loop in \<open>Emit\<close> does: the inline call
  \<open>(*handler)(args...)\<close>, \<open>loop->PostEvent(closure)\<close> or \<open>loop->SendEvent(closure)\<close>, where
  the closure captures the handler and a copy of the arguments.
\<close>

datatype 'a call =
    CallHandler EventHandler 'a
  | Post pointer EventHandler 'a
  | Send pointer EventHandler 'a

text \<open>
  The \<open>switch\<close> on \<open>element.second.type\<close>. The result is the call made for this element;
  the empty list when the element is passed over.
\<close>

definition dispatch ::
  "thread_id \<Rightarrow> (thread_id \<rightharpoonup> pointer) \<Rightarrow> Handler \<Rightarrow> 'a \<Rightarrow> 'a call list" where
  "dispatch this_thread m_EventLoops element args =
     (case type_h element of
        AutoConnection \<Rightarrow>
          (if id_h element = this_thread then [CallHandler (handler_h element) args]
           else (case GetEventLoop m_EventLoops (id_h element) of
                   None \<Rightarrow> []
                 | Some loop \<Rightarrow> [Post loop (handler_h element) args]))
      | DirectConnection \<Rightarrow> [CallHandler (handler_h element) args]
      | QueuedConnection \<Rightarrow>
          (case GetEventLoop m_EventLoops (id_h element) of
             None \<Rightarrow> []
           | Some loop \<Rightarrow> [Post loop (handler_h element) args])
      | BlockingQueuedConnection \<Rightarrow>
          (case GetEventLoop m_EventLoops (id_h element) of
             None \<Rightarrow> []
           | Some loop \<Rightarrow> [Send loop (handler_h element) args]))"

text \<open>
  \<open>Signal::Emit\<close>: the range-for over \<open>m_Handlers\<close>. The result lists the calls \<open>Emit\<close>
  makes, first call first. \<open>Emit\<close> reads \<open>m_Handlers\<close> and never writes it.
\<close>

fun Emit ::
  "thread_id \<Rightarrow> (thread_id \<rightharpoonup> pointer) \<Rightarrow> (Address, Handler) unordered_map \<Rightarrow> 'a
     \<Rightarrow> 'a call list" where
  "Emit this_thread m_EventLoops [] args = []"
| "Emit this_thread m_EventLoops (element # rest) args =
     dispatch this_thread m_EventLoops (snd element) args
       @ Emit this_thread m_EventLoops rest args"

section \<open>EventLoop: the message queue and the timers\<close>

text \<open>
  A callable handed to the library by the application (to \<open>InvokeMethod\<close>,
  \<open>Timer::SingleShot\<close> or \<open>Timer::Start(interval, func)\<close>) is known by a number.
\<close>

type_synonym callable = nat

text \<open>
  What \<open>SetRepeatTimer\<close> is given by the library: the closure of \<open>Timer::Start(interval)\<close>,
  \<open>[&]() { timeout.Emit(); }\<close>, which captures the timer, or the application's callable
  of \<open>Timer::Start(interval, func)\<close>.
\<close>

datatype timer_proc =
    TimeoutEmit pointer
  | TimerCallable callable

text \<open>
  The closures that the library puts into a message queue, by what their bodies do: the
  closure built by \<open>Emit\<close> (it calls the handler with the copied arguments), a callable
  of the application, and the bodies of the lambdas that \<open>SetSingleShotTimer\<close>,
  \<open>SetRepeatTimer\<close> and \<open>KillTimer\<close> hand to the loop (each captures \<open>this\<close>, the loop).
\<close>

datatype 'a closure =
    InvokeHandler EventHandler 'a
  | UserCallable callable
  | SetSingleShotTimerBody pointer int callable
  | SetRepeatTimerBody pointer int timer_proc
  | KillTimerBody pointer nat

text \<open>
  The fields of \<open>EventLoop\<close> that the library reads and writes. The timer counter is a
  \<open>std::atomic<int>\<close>; a timer id is a \<open>UINT_PTR\<close>.
\<close>

record 'a EventLoop =
  m_Messages :: "'a closure list"
  m_SingleShotTimerProcs :: "nat \<rightharpoonup> callable"
  m_RepeatTimerProcs :: "nat \<rightharpoonup> timer_proc"
  m_WndHandle :: pointer
  m_TimerIdAutoIncrease :: int

text \<open>
  \<open>m_TimerIdAutoIncrease++\<close> on the 32-bit \<open>int\<close> wraps from \<open>INT_MAX\<close> to \<open>INT_MIN\<close>, and
  the conversion of the \<open>int\<close> to the 64-bit unsigned \<open>UINT_PTR\<close> is taken modulo \<open>2^64\<close>.
\<close>

definition increment :: "int \<Rightarrow> int" where
  "increment c = (if c = 2147483647 then - 2147483648 else c + 1)"

definition to_UINT_PTR :: "int \<Rightarrow> nat" where
  "to_UINT_PTR c = nat (c mod 18446744073709551616)"

text \<open>
  A loop as its constructor leaves it: the window handle obtained by
  \<open>CreateInternalWindow\<close> (\<open>nullptr\<close> when the window could not be created), the timer
  counter at \<open>WM_USER\<close>, and nothing queued or scheduled.
\<close>

definition WM_USER :: int where
  "WM_USER = 1024"

definition EventLoop_new :: "pointer \<Rightarrow> 'a EventLoop" where
  "EventLoop_new hwnd =
     \<lparr>m_Messages = [], m_SingleShotTimerProcs = Map.empty, m_RepeatTimerProcs = Map.empty,
      m_WndHandle = hwnd, m_TimerIdAutoIncrease = WM_USER\<rparr>"

text \<open>
  The loops in memory, by address, and the record of the application code that the library
  has called (oldest first): a slot with its arguments, or a callable.
\<close>

record 'a world =
  loop_at :: "pointer \<Rightarrow> 'a EventLoop"
  ran :: "'a closure list"

text \<open>
  The bodies of slots and callables are application code. What such a body does to the
  loops (it may post to a loop, its own included, start timers or quit a loop) is a
  parameter: \<open>app c\<close> is the effect on the loops of running the slot or callable \<open>c\<close>,
  with everything the body itself calls; \<open>ran\<close> records only the calls made by the
  library operation that is modelled. \<open>no_effect\<close> is the application whose slots and
  callables leave the loops alone.
\<close>

type_synonym 'a application = "'a closure \<Rightarrow> (pointer \<Rightarrow> 'a EventLoop) \<Rightarrow> (pointer \<Rightarrow> 'a EventLoop)"

definition no_effect :: "'a application" where
  "no_effect c loops = loops"

text \<open>The library calls a slot or a callable: the call is recorded and the body runs.\<close>

definition call_back :: "'a application \<Rightarrow> 'a closure \<Rightarrow> 'a world \<Rightarrow> 'a world" where
  "call_back app c w = \<lparr>loop_at = app c (loop_at w), ran = ran w @ [c]\<rparr>"

text \<open>
  The Win32 call \<open>::SetTimer(hWnd, nIDEvent, uElapse, nullptr)\<close> for a window timer: the
  timer is known to the window by \<open>nIDEvent\<close>, which the window later receives as \<open>wParam\<close>
  of \<open>WM_TIMER\<close>. The call is taken to succeed and to return \<open>nIDEvent\<close>, the value under
  which the code then files the callback.
\<close>

definition SetTimer :: "pointer \<Rightarrow> nat \<Rightarrow> int \<Rightarrow> nat" where
  "SetTimer hWnd nIDEvent uElapse = nIDEvent"

text \<open>Running one queued closure.\<close>

fun run_closure :: "'a application \<Rightarrow> 'a closure \<Rightarrow> 'a world \<Rightarrow> 'a world" where
  "run_closure app (InvokeHandler h args) w = call_back app (InvokeHandler h args) w"
| "run_closure app (UserCallable f) w = call_back app (UserCallable f) w"
| "run_closure app (SetSingleShotTimerBody this interval func) w =
     (if interval = 0 then call_back app (UserCallable func) w
      else
        (let l = loop_at w this;
             id_t = SetTimer (m_WndHandle l) (to_UINT_PTR (m_TimerIdAutoIncrease l)) interval
         in w\<lparr>loop_at := (loop_at w)(this := l
               \<lparr>m_SingleShotTimerProcs := (m_SingleShotTimerProcs l)(id_t \<mapsto> func),
                m_TimerIdAutoIncrease := increment (m_TimerIdAutoIncrease l)\<rparr>)\<rparr>))"
| "run_closure app (SetRepeatTimerBody this interval func) w =
     (let l = loop_at w this;
          id_t = SetTimer (m_WndHandle l) (to_UINT_PTR (m_TimerIdAutoIncrease l)) interval
      in w\<lparr>loop_at := (loop_at w)(this := l
            \<lparr>m_RepeatTimerProcs := (m_RepeatTimerProcs l)(id_t \<mapsto> func)\<rparr>)\<rparr>)"
| "run_closure app (KillTimerBody this timerId) w =
     (let l = loop_at w this
      in if m_RepeatTimerProcs l timerId \<noteq> None then
           w\<lparr>loop_at := (loop_at w)(this := l
             \<lparr>m_RepeatTimerProcs := (m_RepeatTimerProcs l)(timerId := None)\<rparr>)\<rparr>
         else w)"

text \<open>The \<open>while (!messages.empty())\<close> loop of \<open>HandlerMessage\<close>.\<close>

fun run_messages :: "'a application \<Rightarrow> 'a closure list \<Rightarrow> 'a world \<Rightarrow> 'a world" where
  "run_messages app [] w = w"
| "run_messages app (func # messages) w = run_messages app messages (run_closure app func w)"

text \<open>
  \<open>HandlerMessage\<close>: the queue is copied and cleared under the lock, then every copied
  closure is run in order. What a closure posts meanwhile stays in the queue.
\<close>

definition HandlerMessage :: "'a application \<Rightarrow> pointer \<Rightarrow> 'a world \<Rightarrow> 'a world" where
  "HandlerMessage app this w =
     (let messages = m_Messages (loop_at w this);
          w1 = w\<lparr>loop_at := (loop_at w)(this := (loop_at w this)\<lparr>m_Messages := []\<rparr>)\<rparr>
      in run_messages app messages w1)"

text \<open>
  \<open>PostEvent\<close>: \<open>push_back\<close>, then \<open>::PostMessage\<close>, which only queues a window message
  and returns; the closure runs when the loop's thread next dispatches.
\<close>

definition PostEvent :: "pointer \<Rightarrow> 'a closure \<Rightarrow> 'a world \<Rightarrow> 'a world" where
  "PostEvent this func w =
     w\<lparr>loop_at := (loop_at w)(this := (loop_at w this)
         \<lparr>m_Messages := m_Messages (loop_at w this) @ [func]\<rparr>)\<rparr>"

text \<open>
  \<open>SendEvent\<close>: \<open>push_back\<close>, then \<open>::SendMessage\<close>, which returns after the window
  procedure has handled the message: \<open>WndProc\<close> calls \<open>HandlerMessage\<close>. When the caller
  is the thread that owns the window, \<open>::SendMessage\<close> calls the window procedure as a
  subroutine. With no window (\<open>m_WndHandle\<close> is \<open>nullptr\<close>) nothing is delivered.
\<close>

definition SendEvent :: "'a application \<Rightarrow> pointer \<Rightarrow> 'a closure \<Rightarrow> 'a world \<Rightarrow> 'a world" where
  "SendEvent app this func w =
     (let w1 = w\<lparr>loop_at := (loop_at w)(this := (loop_at w this)
                  \<lparr>m_Messages := m_Messages (loop_at w this) @ [func]\<rparr>)\<rparr>
      in if m_WndHandle (loop_at w1 this) \<noteq> 0 then HandlerMessage app this w1 else w1)"



definition KillTimer :: "pointer \<Rightarrow> nat \<Rightarrow> 'a world \<Rightarrow> 'a world" where
  "KillTimer this timerId w = PostEvent this (KillTimerBody this timerId) w"

text \<open>Carrying out the calls that \<open>Emit\<close> makes, in order.\<close>

fun perform :: "'a application \<Rightarrow> 'a call \<Rightarrow> 'a world \<Rightarrow> 'a world" where
  "perform app (CallHandler h args) w = call_back app (InvokeHandler h args) w"
| "perform app (Post loop h args) w = PostEvent loop (InvokeHandler h args) w"
| "perform app (Send loop h args) w = SendEvent app loop (InvokeHandler h args) w"

fun run_calls :: "'a application \<Rightarrow> 'a call list \<Rightarrow> 'a world \<Rightarrow> 'a world" where
  "run_calls app [] w = w"
| "run_calls app (c # cs) w = run_calls app cs (perform app c w)"



section \<open>Object: thread affinity and the two inverse indices\<close>

text \<open>
  The cleanup closures stored by \<open>Connect\<close>, by their captures. The one kept by the
  sender calls \<open>receiver->RemoveSender(SenderAddress, ReceiverAddress.function)\<close>; the one
  kept by the receiver calls \<open>RemoveHandler(ReceiverAddress)\<close> on the signal at
  \<open>SenderAddress\<close> and \<open>sender->RemoveReceiver(ReceiverAddress)\<close>. The weak flags that
  guard these calls are the objects' own and are not listed. \<open>Connect\<close> and
  \<open>Disconnect\<close> store and erase the closures and do not call them.
\<close>

datatype cleanup =
    ReceiverCleanup pointer Address pointer
  | SenderCleanup pointer Address Address

record Object =
  m_Id :: thread_id
  m_SendersList :: "Address \<rightharpoonup> (pointer \<rightharpoonup> cleanup)"
  m_ReceiversList :: "Address \<rightharpoonup> cleanup"

datatype exception = out_of_range

text \<open>
  \<open>AddSender\<close>: \<open>m_SendersList[senderAddress]\<close> creates an empty \<open>Connection\<close> when the key
  is new, and \<open>insert\<close> keeps an entry that is already there.
\<close>

definition AddSender :: "Address \<Rightarrow> pointer \<Rightarrow> cleanup \<Rightarrow> Object \<Rightarrow> Object" where
  "AddSender senderAddress functionAddress func obj =
     (let connection = (case m_SendersList obj senderAddress of
                          None \<Rightarrow> Map.empty
                        | Some c \<Rightarrow> c)
      in obj\<lparr>m_SendersList := (m_SendersList obj)
               (senderAddress \<mapsto> map_insert functionAddress func connection)\<rparr>)"

definition AddReceiver :: "Address \<Rightarrow> cleanup \<Rightarrow> Object \<Rightarrow> Object" where
  "AddReceiver receiverAddress func obj =
     obj\<lparr>m_ReceiversList := (m_ReceiversList obj)(receiverAddress \<mapsto> func)\<rparr>"

text \<open>\<open>RemoveSender\<close>: \<open>m_SendersList.at(senderAddress)\<close> throws for a missing key.\<close>

definition RemoveSender :: "Address \<Rightarrow> pointer \<Rightarrow> Object \<Rightarrow> exception + Object" where
  "RemoveSender senderAddress functionAddress obj =
     (case m_SendersList obj senderAddress of
        None \<Rightarrow> Inl out_of_range
      | Some connection \<Rightarrow>
          Inr (obj\<lparr>m_SendersList := (m_SendersList obj)
                    (senderAddress \<mapsto> connection(functionAddress := None))\<rparr>))"

definition RemoveReceiver :: "Address \<Rightarrow> Object \<Rightarrow> Object" where
  "RemoveReceiver address obj =
     obj\<lparr>m_ReceiversList := (m_ReceiversList obj)(address := None)\<rparr>"

definition ContainSender :: "Address \<Rightarrow> Object \<Rightarrow> bool" where
  "ContainSender address obj = (m_SendersList obj address \<noteq> None)"

definition ContainReceiver :: "Address \<Rightarrow> Object \<Rightarrow> bool" where
  "ContainReceiver address obj = (m_ReceiversList obj address \<noteq> None)"


definition ThreadId :: "'z Object_scheme \<Rightarrow> thread_id" where
  "ThreadId obj = m_Id obj"

section \<open>Connect and Disconnect\<close>

text \<open>
  The memory the free functions work on: the \<open>Object\<close> at each address, and the
  \<open>m_Handlers\<close> of the signal member found at \<open>(sender, event)\<close>. A sender and a receiver
  may be the same object.
\<close>

record state =
  objects :: "pointer \<Rightarrow> Object"
  signals :: "Address \<Rightarrow> (Address, Handler) unordered_map"

definition update_object :: "pointer \<Rightarrow> (Object \<Rightarrow> Object) \<Rightarrow> state \<Rightarrow> state" where
  "update_object p f st = st\<lparr>objects := (objects st)(p := f (objects st p))\<rparr>"

definition update_signal ::
  "Address \<Rightarrow> ((Address, Handler) unordered_map \<Rightarrow> (Address, Handler) unordered_map)
     \<Rightarrow> state \<Rightarrow> state" where
  "update_signal a f st = st\<lparr>signals := (signals st)(a := f (signals st a))\<rparr>"

text \<open>
  \<open>Connect(sender, event, receiver, handler, type)\<close> for a member function; the overload
  for a const member function has the same body. \<open>is_object_v\<close> is the compile-time
  test that both classes are Objects (the \<open>static_assert\<close> admits only both or neither).
\<close>

definition Connect_member ::
  "(Address, Handler) placement \<Rightarrow> thread_id \<Rightarrow> bool \<Rightarrow> pointer \<Rightarrow> pointer \<Rightarrow> pointer
     \<Rightarrow> pointer \<Rightarrow> ConnectionType \<Rightarrow> state \<Rightarrow> state" where
  "Connect_member place this_thread is_object_v sender event receiver handler type st =
     (let ReceiverAddress = \<lparr>object_a = receiver, function_a = handler\<rparr>;
          SenderAddress = \<lparr>object_a = sender, function_a = event\<rparr>;
          v_handler = \<lparr>id_h = this_thread, handler_h = MemberHandler receiver handler,
                       type_h = type\<rparr>
      in if is_object_v then
           (let v_handler1 = v_handler\<lparr>id_h := ThreadId (objects st receiver)\<rparr>;
                st1 = update_object sender
                        (AddReceiver ReceiverAddress
                           (ReceiverCleanup receiver SenderAddress (function_a ReceiverAddress)))
                        st;
                st2 = update_object receiver
                        (AddSender SenderAddress (function_a ReceiverAddress)
                           (SenderCleanup sender SenderAddress ReceiverAddress))
                        st1
            in update_signal SenderAddress (AddHandler place ReceiverAddress v_handler1) st2)
         else update_signal SenderAddress (AddHandler place ReceiverAddress v_handler) st)"

text \<open>
  \<open>Disconnect(sender, event, receiver, handler)\<close> for a member function (and, with the
  same body, for a const member function). An exception of \<open>RemoveSender\<close> leaves the
  function.
\<close>

definition Disconnect_member ::
  "bool \<Rightarrow> pointer \<Rightarrow> pointer \<Rightarrow> pointer \<Rightarrow> pointer \<Rightarrow> state \<Rightarrow> exception + state" where
  "Disconnect_member is_object_v sender event receiver handler st =
     (let ReceiverAddress = \<lparr>object_a = receiver, function_a = handler\<rparr>;
          SenderAddress = \<lparr>object_a = sender, function_a = event\<rparr>;
          st1 = update_signal SenderAddress (RemoveHandler ReceiverAddress) st
      in if is_object_v then
           (if ContainReceiver ReceiverAddress (objects st1 sender)
               \<and> ContainSender SenderAddress (objects st1 receiver) then
              (let st2 = update_object sender (RemoveReceiver ReceiverAddress) st1
               in case RemoveSender SenderAddress (function_a ReceiverAddress)
                         (objects st2 receiver) of
                    Inl e \<Rightarrow> Inl e
                  | Inr obj \<Rightarrow> Inr (st2\<lparr>objects := (objects st2)(receiver := obj)\<rparr>))
            else Inr st1)
         else Inr st1)"

text \<open>
  \<open>Connect(sender, event, handler)\<close> for a free function: the declaration has no
  \<open>ConnectionType\<close> parameter, and the handler is built with \<open>DirectConnection\<close>.
\<close>

definition Connect_function ::
  "(Address, Handler) placement \<Rightarrow> thread_id \<Rightarrow> pointer \<Rightarrow> pointer \<Rightarrow> pointer
     \<Rightarrow> state \<Rightarrow> state" where
  "Connect_function place this_thread sender event handler st =
     (let v_handler = \<lparr>id_h = this_thread, handler_h = CallableHandler handler,
                       type_h = DirectConnection\<rparr>
      in update_signal \<lparr>object_a = sender, function_a = event\<rparr>
           (AddHandler place \<lparr>object_a = 0, function_a = handler\<rparr> v_handler) st)"

definition Disconnect_function :: "pointer \<Rightarrow> pointer \<Rightarrow> pointer \<Rightarrow> state \<Rightarrow> state" where
  "Disconnect_function sender event handler st =
     update_signal \<lparr>object_a = sender, function_a = event\<rparr>
       (RemoveHandler \<lparr>object_a = 0, function_a = handler\<rparr>) st"

text \<open>
  \<open>Signal::ImitationFunctionHelper(object, t, func, type)\<close>, for a lambda \<open>t\<close> whose call
  operator is \<open>func\<close>: it builds the handler, adds it and returns the address. Here
  \<open>is_object_v\<close> tells whether the class of \<open>object\<close> is an Object, and \<open>object_thread\<close> is
  \<open>object->ThreadId()\<close>, read only in that case.
\<close>

definition ImitationFunctionHelper ::
  "(Address, Handler) placement \<Rightarrow> thread_id \<Rightarrow> bool \<Rightarrow> thread_id \<Rightarrow> pointer \<Rightarrow> pointer
     \<Rightarrow> ConnectionType \<Rightarrow> (Address, Handler) unordered_map
     \<Rightarrow> Address \<times> (Address, Handler) unordered_map" where
  "ImitationFunctionHelper place this_thread is_object_v object_thread obj func type m_Handlers =
     (let address = \<lparr>object_a = obj, function_a = func\<rparr>;
          v_handler = \<lparr>id_h = this_thread, handler_h = CallableHandler func, type_h = type\<rparr>;
          v_handler1 = (if is_object_v then v_handler\<lparr>id_h := object_thread\<rparr> else v_handler)
      in (address, AddHandler place address v_handler1 m_Handlers))"

text \<open>\<open>Connect(sender, event, receiver, lambda, type)\<close>.\<close>

definition Connect_lambda ::
  "(Address, Handler) placement \<Rightarrow> thread_id \<Rightarrow> bool \<Rightarrow> pointer \<Rightarrow> pointer \<Rightarrow> pointer
     \<Rightarrow> pointer \<Rightarrow> ConnectionType \<Rightarrow> state \<Rightarrow> state" where
  "Connect_lambda place this_thread is_object_v sender event receiver lambda type st =
     (let SenderAddress = \<lparr>object_a = sender, function_a = event\<rparr>;
          (ReceiverAddress, m_Handlers1) =
             ImitationFunctionHelper place this_thread is_object_v
               (ThreadId (objects st receiver)) receiver lambda type (signals st SenderAddress);
          st0 = st\<lparr>signals := (signals st)(SenderAddress := m_Handlers1)\<rparr>
      in if is_object_v then
           (let st1 = update_object sender
                        (AddReceiver ReceiverAddress
                           (ReceiverCleanup receiver SenderAddress (function_a ReceiverAddress)))
                        st0
            in update_object receiver
                 (AddSender SenderAddress (function_a ReceiverAddress)
                    (SenderCleanup sender SenderAddress ReceiverAddress))
                 st1)
         else st0)"

text \<open>
  \<open>Connect(sender, event, lambda)\<close>: no receiver and no \<open>ConnectionType\<close> parameter; the
  helper is called with \<open>(void*)nullptr\<close> and \<open>DirectConnection\<close>.
\<close>

definition Connect_lambda_only ::
  "(Address, Handler) placement \<Rightarrow> thread_id \<Rightarrow> pointer \<Rightarrow> pointer \<Rightarrow> pointer
     \<Rightarrow> state \<Rightarrow> state" where
  "Connect_lambda_only place this_thread sender event lambda st =
     (let SenderAddress = \<lparr>object_a = sender, function_a = event\<rparr>;
          (ReceiverAddress, m_Handlers1) =
             ImitationFunctionHelper place this_thread False 0 0 lambda DirectConnection
               (signals st SenderAddress)
      in st\<lparr>signals := (signals st)(SenderAddress := m_Handlers1)\<rparr>)"

text \<open>
  A call of \<open>Connect\<close> as written at a call site, one form per overload. In the three
  overloads that declare \<open>ConnectionType type = ConnectionType::AutoConnection\<close> the
  last argument may be left out (\<open>None\<close>); the other two have no such parameter.
\<close>

datatype connect_call =
    ConnectMember bool pointer pointer pointer pointer "ConnectionType option"
  | ConnectConstMember bool pointer pointer pointer pointer "ConnectionType option"
  | ConnectLambda bool pointer pointer pointer pointer "ConnectionType option"
  | ConnectFunction pointer pointer pointer
  | ConnectLambdaOnly pointer pointer pointer

definition default_argument :: "ConnectionType option \<Rightarrow> ConnectionType" where
  "default_argument type = (case type of None \<Rightarrow> AutoConnection | Some t \<Rightarrow> t)"

fun Connect ::
  "(Address, Handler) placement \<Rightarrow> thread_id \<Rightarrow> connect_call \<Rightarrow> state \<Rightarrow> state" where
  "Connect place this_thread (ConnectMember is_object_v sender event receiver handler type) st =
     Connect_member place this_thread is_object_v sender event receiver handler
       (default_argument type) st"
| "Connect place this_thread (ConnectConstMember is_object_v sender event receiver handler type) st =
     Connect_member place this_thread is_object_v sender event receiver handler
       (default_argument type) st"
| "Connect place this_thread (ConnectLambda is_object_v sender event receiver lambda type) st =
     Connect_lambda place this_thread is_object_v sender event receiver lambda
       (default_argument type) st"
| "Connect place this_thread (ConnectFunction sender event handler) st =
     Connect_function place this_thread sender event handler st"
| "Connect place this_thread (ConnectLambdaOnly sender event lambda) st =
     Connect_lambda_only place this_thread sender event lambda st"

text \<open>The signal a call connects to, and the key under which its handler is filed.\<close>

fun signal_of :: "connect_call \<Rightarrow> Address" where
  "signal_of (ConnectMember is_object_v sender event receiver handler type) =
     \<lparr>object_a = sender, function_a = event\<rparr>"
| "signal_of (ConnectConstMember is_object_v sender event receiver handler type) =
     \<lparr>object_a = sender, function_a = event\<rparr>"
| "signal_of (ConnectLambda is_object_v sender event receiver lambda type) =
     \<lparr>object_a = sender, function_a = event\<rparr>"
| "signal_of (ConnectFunction sender event handler) = \<lparr>object_a = sender, function_a = event\<rparr>"
| "signal_of (ConnectLambdaOnly sender event lambda) = \<lparr>object_a = sender, function_a = event\<rparr>"

fun slot_of :: "connect_call \<Rightarrow> Address" where
  "slot_of (ConnectMember is_object_v sender event receiver handler type) =
     \<lparr>object_a = receiver, function_a = handler\<rparr>"
| "slot_of (ConnectConstMember is_object_v sender event receiver handler type) =
     \<lparr>object_a = receiver, function_a = handler\<rparr>"
| "slot_of (ConnectLambda is_object_v sender event receiver lambda type) =
     \<lparr>object_a = receiver, function_a = lambda\<rparr>"
| "slot_of (ConnectFunction sender event handler) = \<lparr>object_a = 0, function_a = handler\<rparr>"
| "slot_of (ConnectLambdaOnly sender event lambda) = \<lparr>object_a = 0, function_a = lambda\<rparr>"

text \<open>A sequence of \<open>Connect\<close> calls, each made on some thread, first call first.\<close>

fun connect_all ::
  "(Address, Handler) placement \<Rightarrow> (thread_id \<times> connect_call) list \<Rightarrow> state \<Rightarrow> state" where
  "connect_all place [] st = st"
| "connect_all place (c # cs) st = connect_all place cs (Connect place (fst c) (snd c) st)"

text \<open>
  Before any \<open>Connect\<close>: every signal is empty and no Object has an index entry;
  \<open>home p\<close> is the thread that constructed the Object at \<open>p\<close>.
\<close>

definition all_on_thread :: "thread_id \<Rightarrow> pointer \<Rightarrow> thread_id" where
  "all_on_thread t p = t"

definition initial_state :: "(pointer \<Rightarrow> thread_id) \<Rightarrow> state" where
  "initial_state home =
     \<lparr>objects = (\<lambda>p. \<lparr>m_Id = home p, m_SendersList = Map.empty, m_ReceiversList = Map.empty\<rparr>),
      signals = (\<lambda>a. [])\<rparr>"

section \<open>Timer\<close>

text \<open>\<open>class Timer : public Object\<close> with the field \<open>m_timerId\<close>, a \<open>UINT_PTR\<close>.\<close>

record Timer = Object +
  m_timerId :: nat

definition IsAlive :: "Timer \<Rightarrow> bool" where
  "IsAlive timer = (m_timerId timer > 0)"




definition Timer_Stop ::
  "thread_id \<Rightarrow> (thread_id \<rightharpoonup> pointer) \<Rightarrow> Timer \<times> 'a world \<Rightarrow> Timer \<times> 'a world" where
  "Timer_Stop this_thread m_EventLoops tw =
     (let timer = fst tw; w = snd tw
      in if \<not> IsAlive timer then (timer, w)
         else (case GetEventLoop m_EventLoops this_thread of
                 None \<Rightarrow> (timer, w)
               | Some eventLoop \<Rightarrow>
                   (timer\<lparr>m_timerId := 0\<rparr>, KillTimer eventLoop (m_timerId timer) w)))"

section \<open>Lemmas on parameter adaptation\<close>

lemma is_subset_of_subseq: "is_subset_of xs ys = subseq xs ys"
  by (induction xs ys rule: is_subset_of.induct) simp_all

lemma find_next_index_shift:
  "find_next_index (int n) T ys =
     map_option (\<lambda>v. v + int n + 1) (find_next_index (- 1) T (drop (Suc n) ys))"
proof (induction n arbitrary: ys)
  case 0
  show ?case by (cases ys) (simp_all add: option.map_comp comp_def)
next
  case (Suc n)
  show ?case
  proof (cases ys)
    case Nil
    then show ?thesis by simp
  next
    case (Cons y ys')
    have "find_next_index (int (Suc n)) T (y # ys') =
            map_option (\<lambda>v. v + 1) (find_next_index (int n) T ys')"
      by simp
    with Suc[of ys'] Cons show ?thesis
      by (simp add: option.map_comp comp_def algebra_simps)
  qed
qed

lemma find_next_index_first:
  "T \<in> set ys \<Longrightarrow>
     \<exists>j. find_next_index (- 1) T ys = Some (int j) \<and> j < length ys \<and> ys ! j = T
          \<and> T \<notin> set (take j ys)"
proof (induction ys)
  case Nil
  then show ?case by simp
next
  case (Cons y ys)
  show ?case
  proof (cases "y = T")
    case True
    then show ?thesis by (intro exI[of _ 0]) simp
  next
    case False
    with Cons obtain j where j: "find_next_index (- 1) T ys = Some (int j)" "j < length ys"
      "ys ! j = T" "T \<notin> set (take j ys)" by auto
    with False show ?thesis by (intro exI[of _ "Suc j"]) simp
  qed
qed

lemma subseq_Cons_first:
  "subseq (T # xs) ys \<Longrightarrow> T \<notin> set (take j ys) \<Longrightarrow> j < length ys \<Longrightarrow> ys ! j = T
     \<Longrightarrow> subseq xs (drop (Suc j) ys)"
proof (induction ys arbitrary: j)
  case Nil
  then show ?case by simp
next
  case (Cons y ys)
  show ?case
  proof (cases j)
    case 0
    with Cons.prems show ?thesis by simp
  next
    case (Suc k)
    with Cons.prems have "y \<noteq> T" by auto
    with Cons.prems Suc have "subseq (T # xs) ys" by auto
    with Cons.IH[of k] Cons.prems Suc show ?thesis by simp
  qed
qed


lemma subseq_Cons_mem: "subseq (T # xs) zs \<Longrightarrow> T \<in> set zs"
  by (induction zs) (auto split: if_splits)

lemma drop_Suc_Cons_eq: "drop n ys = T # zs \<Longrightarrow> drop (Suc n) ys = zs"
proof -
  assume a: "drop n ys = T # zs"
  have "drop (Suc n) ys = drop 1 (drop n ys)" by simp
  with a show ?thesis by simp
qed

lemma find_next_index_drop:
  "find_next_index (int n - 1) T ys =
     map_option (\<lambda>v. v + int n) (find_next_index (- 1) T (drop n ys))"
proof (cases n)
  case 0
  then show ?thesis by (simp add: option.map_ident)
next
  case (Suc m)
  then show ?thesis
    using find_next_index_shift[of m T ys] by (simp add: algebra_simps)
qed

lemma take_drop_not_mem:
  assumes "T \<notin> set (take j (drop n ys))" and "n \<le> i" and "i < n + j" and "n + j \<le> length ys"
  shows "ys ! i \<noteq> T"
proof -
  have len: "i - n < length (take j (drop n ys))" using assms(2-4) by simp
  have "take j (drop n ys) ! (i - n) = ys ! i" using assms(2-4) by simp
  with nth_mem[OF len] assms(1) show ?thesis by metis
qed

lemma find_all_index_subseq:
  "subseq xs (drop n ys) \<Longrightarrow>
     \<exists>idx. find_all_index (int n - 1) xs ys = Some (map int idx) \<and> length idx = length xs
       \<and> sorted_wrt (<) idx \<and> list_all (\<lambda>i. n \<le> i \<and> i < length ys) idx
       \<and> map (\<lambda>i. ys ! i) idx = xs
       \<and> (\<forall>k<length idx. \<forall>i. (if k = 0 then n else Suc (idx ! (k - 1))) \<le> i \<and> i < idx ! k
             \<longrightarrow> ys ! i \<noteq> xs ! k)"
proof (induction xs arbitrary: n)
  case Nil
  then show ?case by (intro exI[of _ "[]"]) simp
next
  case (Cons T xs)
  from Cons.prems have "T \<in> set (drop n ys)"
    by (rule subseq_Cons_mem)
  from find_next_index_first[OF this]
  obtain j where j: "find_next_index (- 1) T (drop n ys) = Some (int j)"
      "j < length (drop n ys)" "drop n ys ! j = T" "T \<notin> set (take j (drop n ys))"
    by (elim exE conjE)
  have next_idx: "find_next_index (int n - 1) T ys = Some (int (n + j))"
    using j(1) by (simp add: find_next_index_drop)
  have "subseq xs (drop (Suc j) (drop n ys))"
    using subseq_Cons_first[OF Cons.prems j(4) j(2) j(3)] .
  then have "subseq xs (drop (Suc (n + j)) ys)"
    by (simp add: add.commute)
  from Cons.IH[OF this] obtain idx where idx:
      "find_all_index (int (Suc (n + j)) - 1) xs ys = Some (map int idx)"
      "length idx = length xs" "sorted_wrt (<) idx"
      "list_all (\<lambda>i. Suc (n + j) \<le> i \<and> i < length ys) idx"
      "map (\<lambda>i. ys ! i) idx = xs"
      "\<forall>k<length idx. \<forall>i. (if k = 0 then Suc (n + j) else Suc (idx ! (k - 1))) \<le> i
           \<and> i < idx ! k \<longrightarrow> ys ! i \<noteq> xs ! k"
    by (elim exE conjE)
  have rest: "find_all_index (int (n + j)) xs ys = Some (map int idx)"
    using idx(1) by simp
  have in_range: "n + j < length ys"
    using j(2) by simp
  have at: "ys ! (n + j) = T"
    using j(2,3) by simp
  have above: "\<forall>i \<in> set idx. Suc (n + j) \<le> i \<and> i < length ys"
    using idx(4) by (simp add: list_all_iff)
  have leftmost: "ys ! i \<noteq> (T # xs) ! k"
    if k: "k < length ((n + j) # idx)"
      and lo: "(if k = 0 then n else Suc (((n + j) # idx) ! (k - 1))) \<le> i"
      and hi: "i < ((n + j) # idx) ! k" for k i
  proof (cases k)
    case 0
    with lo hi have "n \<le> i" "i < n + j" by simp_all
    with j(4) in_range have "ys ! i \<noteq> T"
      by (intro take_drop_not_mem[of T j n ys i]) simp_all
    with 0 show ?thesis by simp
  next
    case (Suc k')
    with k have k': "k' < length idx" by simp
    from Suc lo have lo': "(if k' = 0 then Suc (n + j) else Suc (idx ! (k' - 1))) \<le> i"
      by (cases k') simp_all
    from Suc hi have hi': "i < idx ! k'" by simp
    from idx(6) k' lo' hi' have "ys ! i \<noteq> xs ! k'" by blast
    with Suc show ?thesis by simp
  qed
  show ?case
  proof (intro exI[of _ "(n + j) # idx"] conjI)
    show "find_all_index (int n - 1) (T # xs) ys = Some (map int ((n + j) # idx))"
      using next_idx rest by simp
    show "length ((n + j) # idx) = length (T # xs)" using idx(2) by simp
    show "sorted_wrt (<) ((n + j) # idx)"
      using idx(3) above by auto
    show "list_all (\<lambda>i. n \<le> i \<and> i < length ys) ((n + j) # idx)"
      using above in_range by (auto simp: list_all_iff)
    show "map ((!) ys) ((n + j) # idx) = T # xs"
      using idx(5) at by simp
    show "\<forall>k<length ((n + j) # idx). \<forall>i.
            (if k = 0 then n else Suc (((n + j) # idx) ! (k - 1))) \<le> i
              \<and> i < ((n + j) # idx) ! k \<longrightarrow> ys ! i \<noteq> (T # xs) ! k"
      using leftmost by blast
  qed
qed

lemma MakeTupleByList_nat:
  "list_all (\<lambda>i. i < length target) idx \<Longrightarrow>
     MakeTupleByList (map int idx) target = Some (map (\<lambda>i. target ! i) idx)"
  by (induction idx) simp_all

lemma find_all_index_prefix:
  "prefix xs (drop n ys) \<Longrightarrow>
     find_all_index (int n - 1) xs ys = Some (map int [n ..< n + length xs])"
proof (induction xs arbitrary: n)
  case Nil
  then show ?case by simp
next
  case (Cons T xs)
  from Cons.prems obtain zs where zs: "drop n ys = T # zs" "prefix xs zs"
    by (cases "drop n ys") auto
  have "find_next_index (- 1) T (drop n ys) = Some 0"
    using zs(1) by simp
  then have next_idx: "find_next_index (int n - 1) T ys = Some (int n)"
    by (simp add: find_next_index_drop)
  have "drop (Suc n) ys = zs"
    using zs(1) by (rule drop_Suc_Cons_eq)
  with zs(2) have "prefix xs (drop (Suc n) ys)" by simp
  from Cons.IH[OF this]
  have rest: "find_all_index (int n) xs ys = Some (map int [Suc n ..< Suc n + length xs])"
    by simp
  have upt: "[n ..< n + length (T # xs)] = n # [Suc n ..< Suc n + length xs]"
    using upt_conv_Cons[of n "n + length (T # xs)"] by simp
  show ?case
    unfolding upt using next_idx rest by simp
qed

lemma map_nth_upt_take: "k \<le> length xs \<Longrightarrow> map (\<lambda>i. xs ! i) [0 ..< k] = take k xs"
  by (metis add.left_neutral map_nth take_map take_upt)

lemma TupleTake_subseq:
  assumes len: "length args = length Args"
    and sub: "subseq (map decay_t SlotArgs) (map decay_t Args)"
  shows "\<exists>idx. TupleTake SlotArgs Args args = Inr (map (\<lambda>i. args ! i) idx)
           \<and> length idx = length SlotArgs \<and> sorted_wrt (<) idx
           \<and> list_all (\<lambda>i. i < length Args) idx
           \<and> map (\<lambda>i. decay_t (Args ! i)) idx = map decay_t SlotArgs
           \<and> (\<forall>k<length idx. \<forall>i. (if k = 0 then 0 else Suc (idx ! (k - 1))) \<le> i
                 \<and> i < idx ! k \<longrightarrow> decay_t (Args ! i) \<noteq> decay_t (SlotArgs ! k))"
proof -
  from sub have "subseq (map decay_t SlotArgs) (drop 0 (map decay_t Args))" by simp
  from find_all_index_subseq[OF this] obtain idx where idx:
      "find_all_index (int 0 - 1) (map decay_t SlotArgs) (map decay_t Args)
         = Some (map int idx)"
      "length idx = length (map decay_t SlotArgs)" "sorted_wrt (<) idx"
      "list_all (\<lambda>i. 0 \<le> i \<and> i < length (map decay_t Args)) idx"
      "map (\<lambda>i. map decay_t Args ! i) idx = map decay_t SlotArgs"
      "\<forall>k<length idx. \<forall>i. (if k = 0 then 0 else Suc (idx ! (k - 1))) \<le> i \<and> i < idx ! k
           \<longrightarrow> map decay_t Args ! i \<noteq> map decay_t SlotArgs ! k"
    by (elim exE conjE)
  have fa: "find_all_index (- 1) (map decay_t SlotArgs) (map decay_t Args)
              = Some (map int idx)"
    using idx(1) by simp
  have n: "length idx = length SlotArgs" using idx(2) by simp
  have range: "list_all (\<lambda>i. i < length Args) idx" using idx(4) by simp
  then have in_range: "\<And>k. k < length idx \<Longrightarrow> idx ! k < length Args"
    by (simp add: list_all_length)
  from range len have "list_all (\<lambda>i. i < length args) idx" by simp
  then have mk: "MakeTupleByList (map int idx) args = Some (map (\<lambda>i. args ! i) idx)"
    by (rule MakeTupleByList_nat)
  have res: "TupleTake SlotArgs Args args = Inr (map (\<lambda>i. args ! i) idx)"
    using sub fa mk by (simp add: TupleTake_def is_subset_of_subseq)
  have types: "map (\<lambda>i. decay_t (Args ! i)) idx = map decay_t SlotArgs"
  proof -
    have "map (\<lambda>i. decay_t (Args ! i)) idx = map (\<lambda>i. map decay_t Args ! i) idx"
      using range by (simp add: list_all_iff)
    with idx(5) show ?thesis by simp
  qed
  have leftmost: "decay_t (Args ! i) \<noteq> decay_t (SlotArgs ! k)"
    if k: "k < length idx" and lo: "(if k = 0 then 0 else Suc (idx ! (k - 1))) \<le> i"
      and hi: "i < idx ! k" for k i
  proof -
    from hi in_range[OF k] have i: "i < length Args" by simp
    from k n have k': "k < length SlotArgs" by simp
    from idx(6) k lo hi have "map decay_t Args ! i \<noteq> map decay_t SlotArgs ! k" by blast
    with i k' show ?thesis by simp
  qed
  show ?thesis
  proof (intro exI[of _ idx] conjI)
    show "\<forall>k<length idx. \<forall>i. (if k = 0 then 0 else Suc (idx ! (k - 1))) \<le> i \<and> i < idx ! k
            \<longrightarrow> decay_t (Args ! i) \<noteq> decay_t (SlotArgs ! k)"
      using leftmost by blast
  qed (rule res n idx(3) range types)+
qed

lemma TupleTake_prefix:
  assumes len: "length args = length Args"
    and pre: "prefix (map decay_t SlotArgs) (map decay_t Args)"
  shows "TupleTake SlotArgs Args args = Inr (take (length SlotArgs) args)"
proof -
  from pre have sub: "subseq (map decay_t SlotArgs) (map decay_t Args)"
    by (rule prefix_imp_subseq)
  from pre have "prefix (map decay_t SlotArgs) (drop 0 (map decay_t Args))" by simp
  from find_all_index_prefix[OF this]
  have fa: "find_all_index (- 1) (map decay_t SlotArgs) (map decay_t Args)
              = Some (map int [0 ..< length SlotArgs])"
    by simp
  from pre have k: "length SlotArgs \<le> length args"
    using len prefix_length_le by fastforce
  then have "list_all (\<lambda>i. i < length args) [0 ..< length SlotArgs]"
    by (simp add: list_all_iff)
  then have "MakeTupleByList (map int [0 ..< length SlotArgs]) args
               = Some (map (\<lambda>i. args ! i) [0 ..< length SlotArgs])"
    by (rule MakeTupleByList_nat)
  with k have "MakeTupleByList (map int [0 ..< length SlotArgs]) args
               = Some (take (length SlotArgs) args)"
    by (simp add: map_nth_upt_take)
  with sub fa show ?thesis
    by (simp add: TupleTake_def is_subset_of_subseq)
qed

lemma TupleTake_fail:
  "\<not> subseq (map decay_t SlotArgs) (map decay_t Args) \<Longrightarrow>
     TupleTake SlotArgs Args args = Inl StaticAssertFailed"
  by (simp add: TupleTake_def is_subset_of_subseq)

section \<open>Claim C2: which slots a signal accepts, and which arguments they receive\<close>

text \<open>
  The signal of the test program, \<open>Signal<int, char, std::string>\<close>, connected to the slot
  \<open>Label::TextChanged(std::string)\<close>: the slot's only parameter is the third parameter of
  the signal. The check passes and the slot receives the third argument, which is not
  the first one, and its parameter list is not a prefix of the signal's. The last part
  is the same connection through the member-function handler, whose first argument is
  the receiver.
\<close>

theorem TupleTake_skips_parameters:
  "is_subset_of (map decay_t [ByValue ''std::string''])
       (map decay_t [ByValue ''int'', ByValue ''char'', ByValue ''std::string''])
   \<and> \<not> prefix (map decay_t [ByValue ''std::string''])
       (map decay_t [ByValue ''int'', ByValue ''char'', ByValue ''std::string''])
   \<and> TupleTake [ByValue ''std::string'']
       [ByValue ''int'', ByValue ''char'', ByValue ''std::string'']
       [''1'', ''a'', ''hello''] = Inr [''hello'']
   \<and> take (length [ByValue ''std::string'']) [''1'', ''a'', ''hello''] \<noteq> [''hello'']
   \<and> EventHandler_member ''Label*'' ''label'' [ByValue ''std::string'']
       [ByValue ''int'', ByValue ''char'', ByValue ''std::string'']
       [''1'', ''a'', ''hello''] = Inr [''label'', ''hello'']"
  by (simp add: TupleTake_def EventHandler_member_def)

text \<open>
  Claim C2, as the code has it. A connection passes the library's compile-time check
  exactly when the slot's decayed parameter types form a subsequence of the signal's
  decayed parameter types: the order is kept, and signal parameters may be skipped
  anywhere. The slot is then called with the arguments at strictly increasing
  positions whose decayed types are the slot's parameter types, each position the
  first one after its predecessor that has the wanted type. When the slot's types are a prefix of the signal's, these are the
  first \<open>k\<close> arguments, \<open>k\<close> the slot's arity. Anything that is not a subsequence, a
  reordering included, fails the \<open>static_assert\<close>.
\<close>

theorem TupleTake_subsequence:
  "(is_subset_of (map decay_t SlotArgs) (map decay_t Args)
      \<longleftrightarrow> subseq (map decay_t SlotArgs) (map decay_t Args))
   \<and> (length args = length Args \<longrightarrow> subseq (map decay_t SlotArgs) (map decay_t Args) \<longrightarrow>
        (\<exists>idx. TupleTake SlotArgs Args args = Inr (map (\<lambda>i. args ! i) idx)
           \<and> length idx = length SlotArgs \<and> sorted_wrt (<) idx
           \<and> list_all (\<lambda>i. i < length Args) idx
           \<and> map (\<lambda>i. decay_t (Args ! i)) idx = map decay_t SlotArgs
           \<and> (\<forall>k<length idx. \<forall>i. (if k = 0 then 0 else Suc (idx ! (k - 1))) \<le> i
                 \<and> i < idx ! k \<longrightarrow> decay_t (Args ! i) \<noteq> decay_t (SlotArgs ! k))))
   \<and> (length args = length Args \<longrightarrow> prefix (map decay_t SlotArgs) (map decay_t Args) \<longrightarrow>
        TupleTake SlotArgs Args args = Inr (take (length SlotArgs) args))
   \<and> (\<not> subseq (map decay_t SlotArgs) (map decay_t Args) \<longrightarrow>
        TupleTake SlotArgs Args args = Inl StaticAssertFailed)"
proof (intro conjI impI)
  show "is_subset_of (map decay_t SlotArgs) (map decay_t Args)
          \<longleftrightarrow> subseq (map decay_t SlotArgs) (map decay_t Args)"
    by (rule is_subset_of_subseq)
next
  assume "length args = length Args" and "subseq (map decay_t SlotArgs) (map decay_t Args)"
  then show "\<exists>idx. TupleTake SlotArgs Args args = Inr (map (\<lambda>i. args ! i) idx)
           \<and> length idx = length SlotArgs \<and> sorted_wrt (<) idx
           \<and> list_all (\<lambda>i. i < length Args) idx
           \<and> map (\<lambda>i. decay_t (Args ! i)) idx = map decay_t SlotArgs
           \<and> (\<forall>k<length idx. \<forall>i. (if k = 0 then 0 else Suc (idx ! (k - 1))) \<le> i
                 \<and> i < idx ! k \<longrightarrow> decay_t (Args ! i) \<noteq> decay_t (SlotArgs ! k))"
    by (rule TupleTake_subseq)
next
  assume "length args = length Args" and "prefix (map decay_t SlotArgs) (map decay_t Args)"
  then show "TupleTake SlotArgs Args args = Inr (take (length SlotArgs) args)"
    by (rule TupleTake_prefix)
next
  assume "\<not> subseq (map decay_t SlotArgs) (map decay_t Args)"
  then show "TupleTake SlotArgs Args args = Inl StaticAssertFailed"
    by (rule TupleTake_fail)
qed

theorem TupleTake_subsequence_witness:
  "subseq (map decay_t [ConstLRef ''std::string''])
      (map decay_t [ByValue ''int'', ByValue ''char'', ByValue ''std::string''])
   \<and> (\<exists>idx. TupleTake [ConstLRef ''std::string'']
                [ByValue ''int'', ByValue ''char'', ByValue ''std::string'']
                [''1'', ''a'', ''hello''] = Inr (map (\<lambda>i. [''1'', ''a'', ''hello''] ! i) idx)
           \<and> length idx = 1 \<and> sorted_wrt (<) idx)
   \<and> prefix (map decay_t [ByValue ''int''])
      (map decay_t [ByValue ''int'', ByValue ''char'', ByValue ''std::string''])
   \<and> TupleTake [ByValue ''int'']
        [ByValue ''int'', ByValue ''char'', ByValue ''std::string'']
        [''5'', ''x'', ''hi''] = Inr [''5'']
   \<and> \<not> subseq (map decay_t [ByValue ''char'', ByValue ''int''])
      (map decay_t [ByValue ''int'', ByValue ''char'', ByValue ''std::string''])
   \<and> TupleTake [ByValue ''char'', ByValue ''int'']
        [ByValue ''int'', ByValue ''char'', ByValue ''std::string'']
        [''5'', ''x'', ''hi''] = Inl StaticAssertFailed"
proof -
  let ?sig = "[ByValue ''int'', ByValue ''char'', ByValue ''std::string'']"
  have s1: "subseq (map decay_t [ConstLRef ''std::string'']) (map decay_t ?sig)" by simp
  have p2: "prefix (map decay_t [ByValue ''int'']) (map decay_t ?sig)" by simp
  have n3: "\<not> subseq (map decay_t [ByValue ''char'', ByValue ''int'']) (map decay_t ?sig)"
    by simp
  have l1: "length [''1'', ''a'', ''hello''] = length ?sig" by simp
  have l2: "length [''5'', ''x'', ''hi''] = length ?sig" by simp
  have "\<exists>idx. TupleTake [ConstLRef ''std::string''] ?sig [''1'', ''a'', ''hello'']
        = Inr (map (\<lambda>i. [''1'', ''a'', ''hello''] ! i) idx)
        \<and> length idx = length [ConstLRef ''std::string''] \<and> sorted_wrt (<) idx
        \<and> list_all (\<lambda>i. i < length ?sig) idx
        \<and> map (\<lambda>i. decay_t (?sig ! i)) idx = map decay_t [ConstLRef ''std::string'']
        \<and> (\<forall>k<length idx. \<forall>i. (if k = 0 then 0 else Suc (idx ! (k - 1))) \<le> i
              \<and> i < idx ! k \<longrightarrow> decay_t (?sig ! i) \<noteq> decay_t ([ConstLRef ''std::string''] ! k))"
    by (rule TupleTake_subsequence[of "[ConstLRef ''std::string'']" ?sig
          "[''1'', ''a'', ''hello'']", THEN conjunct2, THEN conjunct1, rule_format, OF l1 s1])
  then obtain idx where i1: "TupleTake [ConstLRef ''std::string''] ?sig [''1'', ''a'', ''hello'']
        = Inr (map (\<lambda>i. [''1'', ''a'', ''hello''] ! i) idx)"
      and i2: "length idx = length [ConstLRef ''std::string'']" and i3: "sorted_wrt (<) idx"
    by (elim exE conjE)
  from i2 have "length idx = 1" by simp
  with i1 i3 have c1: "\<exists>idx. TupleTake [ConstLRef ''std::string''] ?sig [''1'', ''a'', ''hello'']
        = Inr (map (\<lambda>i. [''1'', ''a'', ''hello''] ! i) idx) \<and> length idx = 1
        \<and> sorted_wrt (<) idx"
    by (intro exI[of _ idx] conjI)
  have "TupleTake [ByValue ''int''] ?sig [''5'', ''x'', ''hi'']
          = Inr (take (length [ByValue ''int'']) [''5'', ''x'', ''hi''])"
    by (rule TupleTake_subsequence[of "[ByValue ''int'']" ?sig "[''5'', ''x'', ''hi'']",
          THEN conjunct2, THEN conjunct2, THEN conjunct1, rule_format, OF l2 p2])
  then have c2: "TupleTake [ByValue ''int''] ?sig [''5'', ''x'', ''hi''] = Inr [''5'']"
    by simp
  have c3: "TupleTake [ByValue ''char'', ByValue ''int''] ?sig [''5'', ''x'', ''hi'']
        = Inl StaticAssertFailed"
    by (rule TupleTake_subsequence[of "[ByValue ''char'', ByValue ''int'']" ?sig
          "[''5'', ''x'', ''hi'']", THEN conjunct2, THEN conjunct2, THEN conjunct2,
          rule_format, OF n3])
  from s1 c1 p2 c2 n3 c3 show ?thesis by (intro conjI)
qed

section \<open>Lemmas on the handler container\<close>

lemma count_u_zero_iff: "count_u m k = 0 \<longleftrightarrow> k \<notin> fst ` set m"
  by (induction m) (auto simp: count_u_def)

lemma count_u_le_one: "distinct (map fst m) \<Longrightarrow> count_u m k \<le> 1"
proof (induction m)
  case Nil
  then show ?case by (simp add: count_u_def)
next
  case (Cons e m)
  show ?case
  proof (cases "fst e = k")
    case True
    with Cons.prems have "k \<notin> fst ` set m" by simp
    then have "count_u m k = 0" by (simp add: count_u_zero_iff)
    with True show ?thesis by (simp add: count_u_def)
  next
    case False
    with Cons show ?thesis by (simp add: count_u_def)
  qed
qed

lemma set_take_drop: "set (take n m) \<union> set (drop n m) = set m"
  by (metis append_take_drop_id set_append)

lemma set_insert_u:
  "set (insert_u place e m) = (if fst e \<in> fst ` set m then set m else insert e (set m))"
proof (cases "fst e \<in> fst ` set m")
  case True
  then show ?thesis by (simp add: insert_u_def count_u_zero_iff)
next
  case False
  then show ?thesis by (simp add: insert_u_def count_u_zero_iff set_take_drop)
qed

lemma distinct_insert_u:
  assumes "distinct (map fst m)"
  shows "distinct (map fst (insert_u place e m))"
proof (cases "fst e \<in> fst ` set m")
  case True
  with assms show ?thesis by (simp add: insert_u_def count_u_zero_iff)
next
  case False
  let ?p = "place (fst e) m"
  have split: "map fst m = map fst (take ?p m) @ map fst (drop ?p m)"
    by (metis append_take_drop_id map_append)
  from assms split have d: "distinct (map fst (take ?p m) @ map fst (drop ?p m))" by simp
  from False have n1: "fst e \<notin> fst ` set (take ?p m)" and n2: "fst e \<notin> fst ` set (drop ?p m)"
    by (auto dest: in_set_takeD in_set_dropD)
  from d n1 n2 have "distinct (map fst (take ?p m @ e # drop ?p m))" by auto
  with False show ?thesis by (simp add: insert_u_def count_u_zero_iff)
qed

lemma length_insert_u:
  "length (insert_u place e m) = (if fst e \<in> fst ` set m then length m else Suc (length m))"
proof (cases "fst e \<in> fst ` set m")
  case True
  then show ?thesis by (simp add: insert_u_def count_u_zero_iff)
next
  case False
  have "length (take (place (fst e) m) m) + length (drop (place (fst e) m) m) = length m"
    by (metis append_take_drop_id length_append)
  with False show ?thesis by (simp add: insert_u_def count_u_zero_iff)
qed

lemma map_of_insert_u_fresh:
  assumes "fst e \<notin> fst ` set m"
  shows "map_of (insert_u place e m) (fst e) = Some (snd e)"
proof -
  let ?p = "place (fst e) m"
  from assms have "fst e \<notin> fst ` set (take ?p m)" by (auto dest: in_set_takeD)
  then have "map_of (take ?p m) (fst e) = None" by (simp add: map_of_eq_None_iff)
  then have "map_of (take ?p m @ e # drop ?p m) (fst e) = Some (snd e)"
    by (cases e) (simp add: map_add_def)
  with assms show ?thesis by (simp add: insert_u_def count_u_zero_iff)
qed

lemma insert_u_append: "fst e \<notin> fst ` set m \<Longrightarrow> insert_u place_back e m = m @ [e]"
  by (simp add: insert_u_def count_u_zero_iff place_back_def)

lemma AddHandler_insert: "AddHandler place a h m = insert_u place (a, h) m"
  by (simp add: AddHandler_def insert_u_def)

lemma AddHandler_present: "count_u m a \<noteq> 0 \<Longrightarrow> AddHandler place a h m = m"
  by (simp add: AddHandler_def)

lemma count_u_AddHandler_same: "count_u (AddHandler place a h m) a \<noteq> 0"
proof -
  have "a \<in> fst ` set (insert_u place (a, h) m)"
    by (auto simp: set_insert_u image_iff)
  then show ?thesis by (simp add: AddHandler_insert count_u_zero_iff)
qed

lemma AddHandler_idem: "AddHandler place' a h' (AddHandler place a h m) = AddHandler place a h m"
  by (rule AddHandler_present) (rule count_u_AddHandler_same)

lemma distinct_AddHandler:
  "distinct (map fst m) \<Longrightarrow> distinct (map fst (AddHandler place a h m))"
  by (simp add: AddHandler_insert distinct_insert_u)

lemma map_of_AddHandler_fresh:
  "count_u m a = 0 \<Longrightarrow> map_of (AddHandler place a h m) a = Some h"
  using map_of_insert_u_fresh[of "(a, h)" m place]
  by (simp add: AddHandler_insert count_u_zero_iff)

lemma RemoveHandler_filter: "RemoveHandler a m = filter (\<lambda>e. fst e \<noteq> a) m"
proof (cases "count_u m a = 0")
  case True
  then have "\<forall>e \<in> set m. fst e \<noteq> a" by (auto simp: count_u_zero_iff)
  then have "filter (\<lambda>e. fst e \<noteq> a) m = m" by (simp add: filter_id_conv)
  with True show ?thesis by (simp add: RemoveHandler_def)
next
  case False
  then show ?thesis by (simp add: RemoveHandler_def erase_u_def)
qed

lemma RemoveHandler_idem: "RemoveHandler a (RemoveHandler a m) = RemoveHandler a m"
  by (simp add: RemoveHandler_filter)

lemma count_u_RemoveHandler: "count_u (RemoveHandler a m) a = 0"
  by (auto simp: RemoveHandler_filter count_u_zero_iff)

lemma Emit_append:
  "Emit t loops (xs @ ys) args = Emit t loops xs args @ Emit t loops ys args"
  by (induction xs) simp_all

lemma Emit_concat:
  "Emit t loops m args = concat (map (\<lambda>element. dispatch t loops (snd element) args) m)"
  by (induction m) simp_all

lemma length_dispatch: "length (dispatch t loops h args) \<le> 1"
  by (simp add: dispatch_def split: ConnectionType.split option.split)

lemma length_Emit_le: "length (Emit t loops m args) \<le> length m"
proof (induction m)
  case Nil
  then show ?case by simp
next
  case (Cons e m)
  have "length (dispatch t loops (snd e) args) \<le> 1" by (rule length_dispatch)
  with Cons show ?case by simp
qed



lemma AddHandlers_props:
  "distinct (map fst m @ map fst hs) \<Longrightarrow>
     set (AddHandlers place hs m) = set m \<union> set hs
     \<and> length (AddHandlers place hs m) = length m + length hs
     \<and> distinct (map fst (AddHandlers place hs m))"
proof (induction hs arbitrary: m)
  case Nil
  then show ?case by simp
next
  case (Cons e hs)
  from Cons.prems have fresh: "fst e \<notin> fst ` set m" by auto
  let ?m1 = "AddHandler place (fst e) (snd e) m"
  have m1: "?m1 = insert_u place e m" by (simp add: AddHandler_insert)
  have set1: "set ?m1 = insert e (set m)" using fresh by (simp add: m1 set_insert_u)
  have len1: "length ?m1 = Suc (length m)" using fresh by (simp add: m1 length_insert_u)
  have keys1: "set (map fst ?m1) = insert (fst e) (set (map fst m))"
    using set1 by simp
  from Cons.prems have dm: "distinct (map fst m)" by simp
  have d1: "distinct (map fst ?m1)" using dm by (rule distinct_AddHandler)
  from Cons.prems have dhs: "distinct (map fst hs)"
    and disj: "set (map fst hs) \<inter> insert (fst e) (set (map fst m)) = {}"
    by auto
  have "distinct (map fst ?m1 @ map fst hs)"
    using d1 dhs disj keys1 by (simp only: distinct_append) blast
  from Cons.IH[OF this] set1 len1 show ?case by auto
qed

lemma AddHandlers_append_policy:
  "distinct (map fst m @ map fst hs) \<Longrightarrow> AddHandlers place_back hs m = m @ hs"
proof (induction hs arbitrary: m)
  case Nil
  then show ?case by simp
next
  case (Cons e hs)
  from Cons.prems have fresh: "fst e \<notin> fst ` set m" by auto
  then have m1: "AddHandler place_back (fst e) (snd e) m = m @ [e]"
    using insert_u_append[of e m] by (simp add: AddHandler_insert)
  from Cons.prems have "distinct (map fst (m @ [e]) @ map fst hs)" by auto
  from Cons.IH[OF this] m1 show ?case by simp
qed

section \<open>Lemmas on the event loop\<close>

lemma run_messages_append:
  "run_messages app (xs @ ys) w = run_messages app ys (run_messages app xs w)"
  by (induction xs arbitrary: w) simp_all

lemma SendEvent_delivers:
  assumes "m_WndHandle (loop_at w this) \<noteq> 0"
  shows "SendEvent app this func w =
           run_closure app func
             (run_messages app (m_Messages (loop_at w this))
                (w\<lparr>loop_at := (loop_at w)(this := (loop_at w this)\<lparr>m_Messages := []\<rparr>)\<rparr>))"
  using assms by (simp add: SendEvent_def HandlerMessage_def Let_def run_messages_append)


lemma ran_call_back: "ran (call_back app c w) = ran w @ [c]"
  by (simp add: call_back_def)

lemma dispatch_BlockingQueued:
  "type_h h = BlockingQueuedConnection \<Longrightarrow>
     dispatch t loops h args =
       (case GetEventLoop loops (id_h h) of
          None \<Rightarrow> []
        | Some loop \<Rightarrow> [Send loop (handler_h h) args])"
  by (simp add: dispatch_def)

lemma GetEventLoop_lookup: "GetEventLoop m t = m t"
  by (simp add: GetEventLoop_def)

section \<open>Claim C3: registering an event loop twice on one thread\<close>

text \<open>
  Two loops are registered in turn from thread \<open>1\<close>, at addresses \<open>10\<close> and \<open>20\<close>. The
  lookup of thread \<open>1\<close> then returns the first loop, not the one registered last.
\<close>

theorem AddEventLoop_keeps_first:
  "GetEventLoop (AddEventLoop 1 20 (AddEventLoop 1 10 Map.empty)) 1 = Some 10
   \<and> GetEventLoop (AddEventLoop 1 20 (AddEventLoop 1 10 Map.empty)) 1 \<noteq> Some 20"
  by (simp add: GetEventLoop_def AddEventLoop_def map_insert_def)

text \<open>
  Claim C3, as the code has it. The registry maps a thread to at most one loop.
  \<open>AddEventLoop\<close> uses \<open>insert\<close>, which leaves an existing entry alone: a registration
  from a thread that already has a loop changes nothing, and a lookup of that thread
  returns the loop registered first, until that thread unregisters. Other threads are
  not affected by a registration.
\<close>

theorem AddEventLoop_first_writer:
  "GetEventLoop (AddEventLoop t loop m) t = Some (case m t of None \<Rightarrow> loop | Some old \<Rightarrow> old)
   \<and> AddEventLoop t loop2 (AddEventLoop t loop1 m) = AddEventLoop t loop1 m
   \<and> GetEventLoop (AddEventLoop t loop2 (AddEventLoop t loop1 m)) t
       = GetEventLoop (AddEventLoop t loop1 m) t
   \<and> GetEventLoop (AddEventLoop t loop (RemoveEventLoop t m)) t = Some loop
   \<and> GetEventLoop (AddEventLoop t loop m) t'
       = (if t' = t then GetEventLoop (AddEventLoop t loop m) t else GetEventLoop m t')"
  by (auto simp: GetEventLoop_def AddEventLoop_def RemoveEventLoop_def map_insert_def
      split: option.splits)

section \<open>Claim C1: the order in which \<open>Emit\<close> visits the handlers\<close>

text \<open>
  Two direct handlers are added to an empty signal, first the slot at \<open>(0, 3)\<close>, then
  the slot at \<open>(0, 4)\<close>, in a container that links a new element in front of the others
  (an \<open>unordered_map\<close> is free to do so). \<open>Emit\<close> calls the slot added second before
  the slot added first.
\<close>

theorem Emit_not_insertion_order:
  "Emit 1 Map.empty
     (AddHandlers place_front
        [(\<lparr>object_a = 0, function_a = 3\<rparr>,
          \<lparr>id_h = 1, handler_h = CallableHandler 3, type_h = DirectConnection\<rparr>),
         (\<lparr>object_a = 0, function_a = 4\<rparr>,
          \<lparr>id_h = 1, handler_h = CallableHandler 4, type_h = DirectConnection\<rparr>)] [])
     ()
   = [CallHandler (CallableHandler 4) (), CallHandler (CallableHandler 3) ()]"
  by (simp add: AddHandler_def insert_u_def count_u_def dispatch_def place_front_def)

text \<open>
  Claim C1, as the code has it. \<open>Emit\<close> walks \<open>m_Handlers\<close>, a \<open>std::unordered_map\<close>, in
  the container's iteration order. After handlers with pairwise different addresses
  have been added, whatever positions the container gave them, the container holds
  exactly these handlers, each once, and \<open>Emit\<close> makes the calls of the handlers one
  after the other in iteration order: inline calls and posts are issued in that order.
  The iteration order is the order of insertion when the container links every new
  element at the end.
\<close>

theorem Emit_iteration_order:
  "distinct (map fst hs) \<longrightarrow>
     set (AddHandlers place hs []) = set hs
     \<and> length (AddHandlers place hs []) = length hs
     \<and> distinct (map fst (AddHandlers place hs []))
     \<and> Emit t loops (AddHandlers place hs []) args
         = concat (map (\<lambda>element. dispatch t loops (snd element) args)
                    (AddHandlers place hs []))
     \<and> Emit t loops (AddHandlers place_back hs []) args = Emit t loops hs args"
proof
  assume d: "distinct (map fst hs)"
  then have d': "distinct (map fst [] @ map fst hs)" by simp
  from AddHandlers_props[OF d', of place]
  have p: "set (AddHandlers place hs []) = set hs"
      "length (AddHandlers place hs []) = length hs"
      "distinct (map fst (AddHandlers place hs []))"
    by simp_all
  have a: "AddHandlers place_back hs [] = hs"
    using AddHandlers_append_policy[OF d'] by simp
  show "set (AddHandlers place hs []) = set hs
     \<and> length (AddHandlers place hs []) = length hs
     \<and> distinct (map fst (AddHandlers place hs []))
     \<and> Emit t loops (AddHandlers place hs []) args
         = concat (map (\<lambda>element. dispatch t loops (snd element) args)
                    (AddHandlers place hs []))
     \<and> Emit t loops (AddHandlers place_back hs []) args = Emit t loops hs args"
    using p a by (simp add: Emit_concat)
qed

theorem Emit_iteration_order_witness:
  "distinct (map fst
     [(\<lparr>object_a = 0, function_a = 3\<rparr>,
       \<lparr>id_h = 1, handler_h = CallableHandler 3, type_h = DirectConnection\<rparr>),
      (\<lparr>object_a = 7, function_a = 4\<rparr>,
       \<lparr>id_h = 2, handler_h = MemberHandler 7 4, type_h = QueuedConnection\<rparr>)])
   \<and> length (AddHandlers place_front
       [(\<lparr>object_a = 0, function_a = 3\<rparr>,
         \<lparr>id_h = 1, handler_h = CallableHandler 3, type_h = DirectConnection\<rparr>),
        (\<lparr>object_a = 7, function_a = 4\<rparr>,
         \<lparr>id_h = 2, handler_h = MemberHandler 7 4, type_h = QueuedConnection\<rparr>)] []) = 2
   \<and> Emit 1 [2 \<mapsto> 20] (AddHandlers place_back
       [(\<lparr>object_a = 0, function_a = 3\<rparr>,
         \<lparr>id_h = 1, handler_h = CallableHandler 3, type_h = DirectConnection\<rparr>),
        (\<lparr>object_a = 7, function_a = 4\<rparr>,
         \<lparr>id_h = 2, handler_h = MemberHandler 7 4, type_h = QueuedConnection\<rparr>)] []) ()
     = [CallHandler (CallableHandler 3) (), Post 20 (MemberHandler 7 4) ()]"
proof -
  let ?hs = "[(\<lparr>object_a = 0, function_a = 3\<rparr>,
       \<lparr>id_h = 1, handler_h = CallableHandler 3, type_h = DirectConnection\<rparr>),
      (\<lparr>object_a = 7, function_a = 4\<rparr>,
       \<lparr>id_h = 2, handler_h = MemberHandler 7 4, type_h = QueuedConnection\<rparr>)]"
  have d: "distinct (map fst ?hs)" by simp
  have l: "length (AddHandlers place_front ?hs []) = length ?hs"
    using Emit_iteration_order[of ?hs place_front 1 "[2 \<mapsto> 20]" "()"] d by blast
  have e: "Emit 1 [2 \<mapsto> 20] (AddHandlers place_back ?hs []) ()
             = Emit 1 [2 \<mapsto> 20] ?hs ()"
    using Emit_iteration_order[of ?hs place_front 1 "[2 \<mapsto> 20]" "()"] d by blast
  have v: "Emit 1 [2 \<mapsto> 20] ?hs ()
             = [CallHandler (CallableHandler 3) (), Post 20 (MemberHandler 7 4) ()]"
    by (simp add: dispatch_def GetEventLoop_def)
  from l have l': "length (AddHandlers place_front ?hs []) = 2" by simp
  from d l' e v show ?thesis by (simp only: simp_thms)
qed

section \<open>Claim C7: a queued handler whose thread has no event loop\<close>

text \<open>
  Claim C7. Let a handler be Queued, or Auto with a recorded thread other than the
  emitting thread, and let no loop be registered for its recorded thread. Then \<open>Emit\<close>
  makes no call for it, so carrying out the calls of an emit on this handler alone
  changes nothing: no slot runs and nothing is queued. The handlers before and after
  it are dispatched as if it were not there. \<open>Emit\<close> returns calls only: it raises
  nothing and does not write \<open>m_Handlers\<close>, so an emit on the same container after a
  loop was registered for that thread posts the handler to that loop.
\<close>

theorem Emit_skips_unregistered:
  "(type_h h = QueuedConnection \<or> (type_h h = AutoConnection \<and> id_h h \<noteq> t)) \<longrightarrow>
   GetEventLoop loops (id_h h) = None \<longrightarrow>
     Emit t loops [(a, h)] args = []
     \<and> run_calls app (Emit t loops [(a, h)] args) w = w
     \<and> Emit t loops (before @ (a, h) # after) args
         = Emit t loops before args @ Emit t loops after args
     \<and> Emit t (AddEventLoop (id_h h) loop loops) (before @ (a, h) # after) args
         = Emit t (AddEventLoop (id_h h) loop loops) before args
           @ Post loop (handler_h h) args
           # Emit t (AddEventLoop (id_h h) loop loops) after args"
proof (intro impI)
  assume k: "type_h h = QueuedConnection \<or> (type_h h = AutoConnection \<and> id_h h \<noteq> t)"
    and n: "GetEventLoop loops (id_h h) = None"
  from k n have skip: "dispatch t loops h args = []"
    by (auto simp: dispatch_def)
  from n have "loops (id_h h) = None" by (simp add: GetEventLoop_lookup)
  then have reg: "GetEventLoop (AddEventLoop (id_h h) loop loops) (id_h h) = Some loop"
    by (simp add: GetEventLoop_def AddEventLoop_def map_insert_def)
  from k reg have later: "dispatch t (AddEventLoop (id_h h) loop loops) h args
                            = [Post loop (handler_h h) args]"
    by (auto simp: dispatch_def)
  show "Emit t loops [(a, h)] args = []
     \<and> run_calls app (Emit t loops [(a, h)] args) w = w
     \<and> Emit t loops (before @ (a, h) # after) args
         = Emit t loops before args @ Emit t loops after args
     \<and> Emit t (AddEventLoop (id_h h) loop loops) (before @ (a, h) # after) args
         = Emit t (AddEventLoop (id_h h) loop loops) before args
           @ Post loop (handler_h h) args
           # Emit t (AddEventLoop (id_h h) loop loops) after args"
    using skip later by (simp add: Emit_append)
qed

theorem Emit_skips_unregistered_witness:
  "(type_h \<lparr>id_h = 2, handler_h = MemberHandler 7 4, type_h = AutoConnection\<rparr> = QueuedConnection
     \<or> (type_h \<lparr>id_h = 2, handler_h = MemberHandler 7 4, type_h = AutoConnection\<rparr>
           = AutoConnection
         \<and> id_h \<lparr>id_h = 2, handler_h = MemberHandler 7 4, type_h = AutoConnection\<rparr> \<noteq> 1))
   \<and> GetEventLoop Map.empty
        (id_h \<lparr>id_h = 2, handler_h = MemberHandler 7 4, type_h = AutoConnection\<rparr>) = None
   \<and> Emit 1 Map.empty
        ([(\<lparr>object_a = 0, function_a = 3\<rparr>,
           \<lparr>id_h = 1, handler_h = CallableHandler 3, type_h = DirectConnection\<rparr>)]
         @ (\<lparr>object_a = 7, function_a = 4\<rparr>,
            \<lparr>id_h = 2, handler_h = MemberHandler 7 4, type_h = AutoConnection\<rparr>)
         # [(\<lparr>object_a = 0, function_a = 5\<rparr>,
             \<lparr>id_h = 1, handler_h = CallableHandler 5, type_h = DirectConnection\<rparr>)]) ()
      = [CallHandler (CallableHandler 3) (), CallHandler (CallableHandler 5) ()]"
proof -
  let ?h = "\<lparr>id_h = 2, handler_h = MemberHandler 7 4, type_h = AutoConnection\<rparr>"
  let ?b = "[(\<lparr>object_a = 0, function_a = 3\<rparr>,
           \<lparr>id_h = 1, handler_h = CallableHandler 3, type_h = DirectConnection\<rparr>)]"
  let ?a = "[(\<lparr>object_a = 0, function_a = 5\<rparr>,
             \<lparr>id_h = 1, handler_h = CallableHandler 5, type_h = DirectConnection\<rparr>)]"
  have k: "type_h ?h = QueuedConnection \<or> (type_h ?h = AutoConnection \<and> id_h ?h \<noteq> 1)"
    by simp
  have n: "GetEventLoop Map.empty (id_h ?h) = None" by (simp add: GetEventLoop_def)
  have "Emit 1 Map.empty (?b @ (\<lparr>object_a = 7, function_a = 4\<rparr>, ?h) # ?a) ()
          = Emit 1 Map.empty ?b () @ Emit 1 Map.empty ?a ()"
    using Emit_skips_unregistered[of ?h 1 Map.empty "\<lparr>object_a = 7, function_a = 4\<rparr>" "()"
        no_effect "\<lparr>loop_at = (\<lambda>p. EventLoop_new 77), ran = []\<rparr>" ?b ?a 20] k n
    by blast
  also have "\<dots> = [CallHandler (CallableHandler 3) (), CallHandler (CallableHandler 5) ()]"
    by (simp add: dispatch_def)
  finally show ?thesis using k n by (simp only: simp_thms)
qed

section \<open>Claim C4: a BlockingQueued handler on the emitting thread\<close>

text \<open>
  Thread \<open>1\<close> emits, and the handler's recorded thread is \<open>1\<close>. With no loop registered
  for thread \<open>1\<close> the BlockingQueued handler is passed over, while the same handler
  connected as Direct is called; with the loop \<open>9\<close> registered for thread \<open>1\<close> the call is
  \<open>SendEvent\<close> on that loop, not the inline call.
\<close>

theorem Emit_BlockingQueued_same_thread:
  "Emit 1 Map.empty
     [(\<lparr>object_a = 5, function_a = 6\<rparr>,
       \<lparr>id_h = 1, handler_h = MemberHandler 5 6, type_h = BlockingQueuedConnection\<rparr>)] () = []
   \<and> Emit 1 Map.empty
     [(\<lparr>object_a = 5, function_a = 6\<rparr>,
       \<lparr>id_h = 1, handler_h = MemberHandler 5 6, type_h = DirectConnection\<rparr>)] ()
     = [CallHandler (MemberHandler 5 6) ()]
   \<and> Emit 1 [1 \<mapsto> 9]
     [(\<lparr>object_a = 5, function_a = 6\<rparr>,
       \<lparr>id_h = 1, handler_h = MemberHandler 5 6, type_h = BlockingQueuedConnection\<rparr>)] ()
     = [Send 9 (MemberHandler 5 6) ()]"
  by (simp add: dispatch_def GetEventLoop_def)

text \<open>
  Claim C4, as the code has it. For a BlockingQueued handler \<open>Emit\<close> never compares the
  emitting thread with the recorded thread. It looks up the loop registered for the
  recorded thread: with none, the handler is passed over (also on the emitting thread's
  own handler) and nothing runs; otherwise it calls \<open>SendEvent\<close> on that loop. When that
  loop has its window, \<open>SendEvent\<close> returns after the loop has taken its queue, run the
  closures that were pending in order, and then called the slot with the emitted
  arguments: the slot has run when \<open>Emit\<close> returns, as the last of the calls recorded.
  This holds whatever the slots and callables do to the loops.
\<close>

theorem Emit_BlockingQueued_sends:
  "type_h h = BlockingQueuedConnection \<longrightarrow>
     Emit t loops [(a, h)] args
       = (case GetEventLoop loops (id_h h) of
            None \<Rightarrow> []
          | Some loop \<Rightarrow> [Send loop (handler_h h) args])
     \<and> (GetEventLoop loops (id_h h) = None \<longrightarrow>
          run_calls app (Emit t loops [(a, h)] args) w = w)
     \<and> (GetEventLoop loops (id_h h) = Some loop \<longrightarrow> m_WndHandle (loop_at w loop) \<noteq> 0 \<longrightarrow>
          run_calls app (Emit t loops [(a, h)] args) w
            = call_back app (InvokeHandler (handler_h h) args)
                (run_messages app (m_Messages (loop_at w loop))
                   (w\<lparr>loop_at := (loop_at w)(loop := (loop_at w loop)\<lparr>m_Messages := []\<rparr>)\<rparr>))
          \<and> ran (run_calls app (Emit t loops [(a, h)] args) w)
            = ran (run_messages app (m_Messages (loop_at w loop))
                     (w\<lparr>loop_at := (loop_at w)(loop := (loop_at w loop)\<lparr>m_Messages := []\<rparr>)\<rparr>))
              @ [InvokeHandler (handler_h h) args])"
proof
  assume b: "type_h h = BlockingQueuedConnection"
  let ?pending = "run_messages app (m_Messages (loop_at w loop))
                   (w\<lparr>loop_at := (loop_at w)(loop := (loop_at w loop)\<lparr>m_Messages := []\<rparr>)\<rparr>)"
  have e: "Emit t loops [(a, h)] args
       = (case GetEventLoop loops (id_h h) of
            None \<Rightarrow> []
          | Some loop \<Rightarrow> [Send loop (handler_h h) args])"
    using b by (simp add: dispatch_BlockingQueued)
  have n: "GetEventLoop loops (id_h h) = None \<longrightarrow>
          run_calls app (Emit t loops [(a, h)] args) w = w"
    using e by simp
  have s: "GetEventLoop loops (id_h h) = Some loop \<longrightarrow> m_WndHandle (loop_at w loop) \<noteq> 0 \<longrightarrow>
          run_calls app (Emit t loops [(a, h)] args) w
            = call_back app (InvokeHandler (handler_h h) args) ?pending
          \<and> ran (run_calls app (Emit t loops [(a, h)] args) w)
            = ran ?pending @ [InvokeHandler (handler_h h) args]"
  proof (intro impI)
    assume g: "GetEventLoop loops (id_h h) = Some loop"
      and v: "m_WndHandle (loop_at w loop) \<noteq> 0"
    from e g have "run_calls app (Emit t loops [(a, h)] args) w
                     = SendEvent app loop (InvokeHandler (handler_h h) args) w"
      by simp
    also have "\<dots> = call_back app (InvokeHandler (handler_h h) args) ?pending"
      using v by (simp add: SendEvent_delivers)
    finally have r: "run_calls app (Emit t loops [(a, h)] args) w
                     = call_back app (InvokeHandler (handler_h h) args) ?pending" .
    then have "ran (run_calls app (Emit t loops [(a, h)] args) w)
                 = ran ?pending @ [InvokeHandler (handler_h h) args]"
      by (simp only: ran_call_back)
    with r show "run_calls app (Emit t loops [(a, h)] args) w
            = call_back app (InvokeHandler (handler_h h) args) ?pending
          \<and> ran (run_calls app (Emit t loops [(a, h)] args) w)
            = ran ?pending @ [InvokeHandler (handler_h h) args]"
      by (intro conjI)
  qed
  from e n s show "Emit t loops [(a, h)] args
       = (case GetEventLoop loops (id_h h) of
            None \<Rightarrow> []
          | Some loop \<Rightarrow> [Send loop (handler_h h) args])
     \<and> (GetEventLoop loops (id_h h) = None \<longrightarrow>
          run_calls app (Emit t loops [(a, h)] args) w = w)
     \<and> (GetEventLoop loops (id_h h) = Some loop \<longrightarrow> m_WndHandle (loop_at w loop) \<noteq> 0 \<longrightarrow>
          run_calls app (Emit t loops [(a, h)] args) w
            = call_back app (InvokeHandler (handler_h h) args) ?pending
          \<and> ran (run_calls app (Emit t loops [(a, h)] args) w)
            = ran ?pending @ [InvokeHandler (handler_h h) args])"
    by (intro conjI)
qed

text \<open>
  The witness: thread \<open>1\<close> emits to its own BlockingQueued handler while a callable is
  pending on the loop \<open>9\<close> of thread \<open>1\<close>. The callable runs first, then the slot.
\<close>

theorem Emit_BlockingQueued_sends_witness:
  "type_h \<lparr>id_h = 1, handler_h = MemberHandler 5 6, type_h = BlockingQueuedConnection\<rparr>
     = BlockingQueuedConnection
   \<and> GetEventLoop [1 \<mapsto> 9]
       (id_h \<lparr>id_h = 1, handler_h = MemberHandler 5 6, type_h = BlockingQueuedConnection\<rparr>)
     = Some 9
   \<and> m_WndHandle (loop_at
        \<lparr>loop_at = (\<lambda>p. (EventLoop_new 77)\<lparr>m_Messages := [UserCallable 1]\<rparr>),
         ran = ([] :: unit closure list)\<rparr> 9)
     \<noteq> 0
   \<and> ran (run_calls no_effect
        (Emit 1 [1 \<mapsto> 9]
           [(\<lparr>object_a = 5, function_a = 6\<rparr>,
             \<lparr>id_h = 1, handler_h = MemberHandler 5 6, type_h = BlockingQueuedConnection\<rparr>)]
           ())
        \<lparr>loop_at = (\<lambda>p. (EventLoop_new 77)\<lparr>m_Messages := [UserCallable 1]\<rparr>),
         ran = ([] :: unit closure list)\<rparr>)
     = [UserCallable 1, InvokeHandler (MemberHandler 5 6) ()]
   \<and> GetEventLoop Map.empty
       (id_h \<lparr>id_h = 1, handler_h = MemberHandler 5 6, type_h = BlockingQueuedConnection\<rparr>)
     = None
   \<and> run_calls no_effect
        (Emit 1 Map.empty
           [(\<lparr>object_a = 5, function_a = 6\<rparr>,
             \<lparr>id_h = 1, handler_h = MemberHandler 5 6, type_h = BlockingQueuedConnection\<rparr>)]
           ())
        \<lparr>loop_at = (\<lambda>p. (EventLoop_new 77)\<lparr>m_Messages := [UserCallable 1]\<rparr>),
         ran = ([] :: unit closure list)\<rparr>
     = \<lparr>loop_at = (\<lambda>p. (EventLoop_new 77)\<lparr>m_Messages := [UserCallable 1]\<rparr>),
        ran = ([] :: unit closure list)\<rparr>"
proof -
  let ?h = "\<lparr>id_h = 1, handler_h = MemberHandler 5 6, type_h = BlockingQueuedConnection\<rparr>"
  let ?a = "\<lparr>object_a = 5, function_a = 6\<rparr>"
  let ?w = "\<lparr>loop_at = (\<lambda>p. (EventLoop_new 77)\<lparr>m_Messages := [UserCallable 1]\<rparr>),
            ran = ([] :: unit closure list)\<rparr>"
  have b: "type_h ?h = BlockingQueuedConnection" by simp
  have g: "GetEventLoop [1 \<mapsto> 9] (id_h ?h) = Some 9" by (simp add: GetEventLoop_def)
  have v: "m_WndHandle (loop_at ?w 9) \<noteq> 0" by (simp add: EventLoop_new_def)
  have n: "GetEventLoop Map.empty (id_h ?h) = None" by (simp add: GetEventLoop_def)
  have "ran (run_calls no_effect (Emit 1 [1 \<mapsto> 9] [(?a, ?h)] ()) ?w)
          = ran (run_messages no_effect (m_Messages (loop_at ?w 9))
                   (?w\<lparr>loop_at := (loop_at ?w)(9 := (loop_at ?w 9)\<lparr>m_Messages := []\<rparr>)\<rparr>))
            @ [InvokeHandler (handler_h ?h) ()]"
    by (rule Emit_BlockingQueued_sends[of ?h 1 "[1 \<mapsto> 9]" ?a "()" no_effect ?w 9, rule_format,
          OF b, THEN conjunct2, THEN conjunct2, rule_format, OF g v, THEN conjunct2])
  also have "\<dots> = [UserCallable 1, InvokeHandler (MemberHandler 5 6) ()]"
    by (simp add: call_back_def)
  finally have c1: "ran (run_calls no_effect (Emit 1 [1 \<mapsto> 9] [(?a, ?h)] ()) ?w)
          = [UserCallable 1, InvokeHandler (MemberHandler 5 6) ()]" .
  have c2: "run_calls no_effect (Emit 1 Map.empty [(?a, ?h)] ()) ?w = ?w"
    by (rule Emit_BlockingQueued_sends[of ?h 1 Map.empty ?a "()" no_effect ?w 9, rule_format,
          OF b, THEN conjunct2, THEN conjunct1, rule_format, OF n])
  from b g v c1 n c2 show ?thesis by (intro conjI)
qed

section \<open>Lemmas on Connect and Disconnect\<close>

lemma map_insert_idem: "map_insert k v' (map_insert k v m) = map_insert k v m"
  by (simp add: map_insert_def split: option.splits)

lemma AddSender_idem:
  "AddSender sa f c' (AddSender sa f c obj) = AddSender sa f c obj"
  by (simp add: AddSender_def map_insert_idem)

lemma AddReceiver_idem:
  "AddReceiver ra c (AddReceiver ra c obj) = AddReceiver ra c obj"
  by (simp add: AddReceiver_def)

lemma AddSender_AddReceiver_commute:
  "AddSender sa f c (AddReceiver ra c' obj) = AddReceiver ra c' (AddSender sa f c obj)"
  by (simp add: AddSender_def AddReceiver_def)

lemma ThreadId_AddSender: "ThreadId (AddSender sa f c obj) = ThreadId obj"
  by (simp add: ThreadId_def AddSender_def)

lemma ThreadId_AddReceiver: "ThreadId (AddReceiver ra c obj) = ThreadId obj"
  by (simp add: ThreadId_def AddReceiver_def)

lemma Connect_member_idem:
  "Connect_member place t2 b s e r h ty2 (Connect_member place t1 b s e r h ty1 st)
     = Connect_member place t1 b s e r h ty1 st"
  by (simp add: Connect_member_def update_object_def update_signal_def Let_def
      AddHandler_idem AddSender_idem AddReceiver_idem AddSender_AddReceiver_commute
      ThreadId_AddSender ThreadId_AddReceiver)

lemma Connect_lambda_idem:
  "Connect_lambda place t2 b s e r l ty2 (Connect_lambda place t1 b s e r l ty1 st)
     = Connect_lambda place t1 b s e r l ty1 st"
  by (simp add: Connect_lambda_def ImitationFunctionHelper_def update_object_def Let_def
      AddHandler_idem AddSender_idem AddReceiver_idem AddSender_AddReceiver_commute
      ThreadId_AddSender ThreadId_AddReceiver)

lemma Connect_function_idem:
  "Connect_function place t2 s e h (Connect_function place t1 s e h st)
     = Connect_function place t1 s e h st"
  by (simp add: Connect_function_def update_signal_def Let_def AddHandler_idem)

lemma Connect_lambda_only_idem:
  "Connect_lambda_only place t2 s e l (Connect_lambda_only place t1 s e l st)
     = Connect_lambda_only place t1 s e l st"
  by (simp add: Connect_lambda_only_def ImitationFunctionHelper_def Let_def AddHandler_idem)

lemma Connect_idem: "Connect place t2 c (Connect place t1 c st) = Connect place t1 c st"
  by (cases c)
    (simp_all add: Connect_member_idem Connect_lambda_idem Connect_function_idem
      Connect_lambda_only_idem)

lemma signals_Connect_member:
  "signals (Connect_member place t b s e r h ty st)
     = (signals st)(\<lparr>object_a = s, function_a = e\<rparr> :=
          AddHandler place \<lparr>object_a = r, function_a = h\<rparr>
            \<lparr>id_h = (if b then ThreadId (objects st r) else t),
             handler_h = MemberHandler r h, type_h = ty\<rparr>
            (signals st \<lparr>object_a = s, function_a = e\<rparr>))"
  by (simp add: Connect_member_def update_object_def update_signal_def Let_def)

lemma signals_Connect_lambda:
  "signals (Connect_lambda place t b s e r l ty st)
     = (signals st)(\<lparr>object_a = s, function_a = e\<rparr> :=
          AddHandler place \<lparr>object_a = r, function_a = l\<rparr>
            \<lparr>id_h = (if b then ThreadId (objects st r) else t),
             handler_h = CallableHandler l, type_h = ty\<rparr>
            (signals st \<lparr>object_a = s, function_a = e\<rparr>))"
  by (simp add: Connect_lambda_def ImitationFunctionHelper_def update_object_def Let_def)

lemma signals_Connect_function:
  "signals (Connect_function place t s e h st)
     = (signals st)(\<lparr>object_a = s, function_a = e\<rparr> :=
          AddHandler place \<lparr>object_a = 0, function_a = h\<rparr>
            \<lparr>id_h = t, handler_h = CallableHandler h, type_h = DirectConnection\<rparr>
            (signals st \<lparr>object_a = s, function_a = e\<rparr>))"
  by (simp add: Connect_function_def update_signal_def Let_def)

lemma signals_Connect_lambda_only:
  "signals (Connect_lambda_only place t s e l st)
     = (signals st)(\<lparr>object_a = s, function_a = e\<rparr> :=
          AddHandler place \<lparr>object_a = 0, function_a = l\<rparr>
            \<lparr>id_h = t, handler_h = CallableHandler l, type_h = DirectConnection\<rparr>
            (signals st \<lparr>object_a = s, function_a = e\<rparr>))"
  by (simp add: Connect_lambda_only_def ImitationFunctionHelper_def Let_def)

lemma signals_Connect:
  "\<exists>v_handler. signals (Connect place t c st)
     = (signals st)(signal_of c :=
          AddHandler place (slot_of c) v_handler (signals st (signal_of c)))"
  by (cases c)
    (auto simp: signals_Connect_member signals_Connect_lambda signals_Connect_function
      signals_Connect_lambda_only)

lemma distinct_Connect:
  assumes "\<And>a. distinct (map fst (signals st a))"
  shows "distinct (map fst (signals (Connect place t c st) a))"
proof -
  from signals_Connect[of place t c st] obtain v where
    v: "signals (Connect place t c st)
          = (signals st)(signal_of c := AddHandler place (slot_of c) v (signals st (signal_of c)))"
    by (elim exE)
  show ?thesis
    using assms by (simp add: v distinct_AddHandler)
qed

lemma distinct_connect_all:
  assumes "\<And>a. distinct (map fst (signals st a))"
  shows "distinct (map fst (signals (connect_all place cs st) a))"
  using assms
proof (induction cs arbitrary: st a)
  case Nil
  then show ?case by simp
next
  case (Cons c cs)
  have "\<And>a. distinct (map fst (signals (Connect place (fst c) (snd c) st) a))"
    using Cons.prems by (rule distinct_Connect)
  from Cons.IH[OF this] show ?case by simp
qed

lemma distinct_reachable:
  "distinct (map fst (signals (connect_all place cs (initial_state home)) a))"
  by (rule distinct_connect_all) (simp add: initial_state_def)

lemma count_u_Connect: "count_u (signals (Connect place t c st) (signal_of c)) (slot_of c) \<noteq> 0"
proof -
  from signals_Connect[of place t c st] obtain v where
    v: "signals (Connect place t c st)
          = (signals st)(signal_of c := AddHandler place (slot_of c) v (signals st (signal_of c)))"
    by (elim exE)
  show ?thesis by (simp add: v count_u_AddHandler_same)
qed

lemma length_Emit_key:
  assumes "distinct (map fst m)"
  shows "length (Emit t loops (filter (\<lambda>e. fst e = k) m) args) \<le> 1"
proof -
  have "length (Emit t loops (filter (\<lambda>e. fst e = k) m) args)
          \<le> length (filter (\<lambda>e. fst e = k) m)"
    by (rule length_Emit_le)
  also have "\<dots> = count_u m k" by (simp add: count_u_def)
  also have "\<dots> \<le> 1" using assms by (rule count_u_le_one)
  finally show ?thesis .
qed

lemma update_signal_RemoveHandler_idem:
  "update_signal sa (RemoveHandler ra) (update_signal sa (RemoveHandler ra) st)
     = update_signal sa (RemoveHandler ra) st"
  by (simp add: update_signal_def RemoveHandler_idem)

lemma Disconnect_member_total:
  "\<exists>st1. Disconnect_member b s e r h st = Inr st1"
  by (auto simp: Disconnect_member_def Let_def update_signal_def update_object_def
      ContainSender_def ContainReceiver_def RemoveSender_def RemoveReceiver_def
      split: option.splits)

lemma Disconnect_member_idem:
  "Disconnect_member b s e r h st = Inr st1 \<Longrightarrow> Disconnect_member b s e r h st1 = Inr st1"
  by (auto simp: Disconnect_member_def Let_def update_signal_def update_object_def
      ContainSender_def ContainReceiver_def RemoveSender_def RemoveReceiver_def
      RemoveHandler_idem
      split: option.splits if_splits)

lemma signals_Connect_present:
  assumes "count_u (signals st (signal_of c)) (slot_of c) \<noteq> 0"
  shows "signals (Connect place t c st) = signals st"
proof -
  from signals_Connect[of place t c st] obtain v where
    v: "signals (Connect place t c st)
          = (signals st)(signal_of c := AddHandler place (slot_of c) v (signals st (signal_of c)))"
    by (elim exE)
  have "AddHandler place (slot_of c) v (signals st (signal_of c)) = signals st (signal_of c)"
    using assms by (rule AddHandler_present)
  with v show ?thesis by simp
qed

section \<open>Claim C5: the connection kind when \<open>Connect\<close> is called without one\<close>

text \<open>
  A free function and a lambda without receiver are connected to the empty signal
  \<open>(1, 2)\<close>. Neither overload takes a connection kind, and the handler each installs is
  Direct, not Auto.
\<close>

theorem Connect_without_receiver_is_Direct:
  "map_option type_h
     (map_of (signals (Connect place_back 1 (ConnectFunction 1 2 3)
                         (initial_state (all_on_thread 1)))
                \<lparr>object_a = 1, function_a = 2\<rparr>)
        \<lparr>object_a = 0, function_a = 3\<rparr>) = Some DirectConnection
   \<and> map_option type_h
     (map_of (signals (Connect place_back 1 (ConnectLambdaOnly 1 2 4)
                         (initial_state (all_on_thread 1)))
                \<lparr>object_a = 1, function_a = 2\<rparr>)
        \<lparr>object_a = 0, function_a = 4\<rparr>) = Some DirectConnection
   \<and> DirectConnection \<noteq> AutoConnection"
  by (simp add: signals_Connect_function signals_Connect_lambda_only initial_state_def
      AddHandler_def insert_u_def count_u_def place_back_def)

text \<open>
  Claim C5, as the code has it. In the three overloads of \<open>Connect\<close> that name a
  receiver (member function, const member function, lambda with a receiver) the
  connection kind is optional and defaults to Auto. The overloads for a free function
  and for a lambda without receiver have no connection-kind parameter: the handler
  they install is always Direct. The statement is about the handler that a call
  installs under an address not yet present in the signal.
\<close>

theorem Connect_default_kind:
  "count_u (signals st (signal_of c)) (slot_of c) = 0 \<longrightarrow>
     map_option type_h (map_of (signals (Connect place t c st) (signal_of c)) (slot_of c))
       = Some (case c of
                 ConnectMember b s e r h type \<Rightarrow> default_argument type
               | ConnectConstMember b s e r h type \<Rightarrow> default_argument type
               | ConnectLambda b s e r l type \<Rightarrow> default_argument type
               | ConnectFunction s e h \<Rightarrow> DirectConnection
               | ConnectLambdaOnly s e l \<Rightarrow> DirectConnection)
     \<and> default_argument None = AutoConnection
     \<and> default_argument (Some k) = k"
proof
  assume fresh: "count_u (signals st (signal_of c)) (slot_of c) = 0"
  have "map_option type_h (map_of (signals (Connect place t c st) (signal_of c)) (slot_of c))
       = Some (case c of
                 ConnectMember b s e r h type \<Rightarrow> default_argument type
               | ConnectConstMember b s e r h type \<Rightarrow> default_argument type
               | ConnectLambda b s e r l type \<Rightarrow> default_argument type
               | ConnectFunction s e h \<Rightarrow> DirectConnection
               | ConnectLambdaOnly s e l \<Rightarrow> DirectConnection)"
    using fresh
    by (cases c)
      (simp_all add: signals_Connect_member signals_Connect_lambda signals_Connect_function
        signals_Connect_lambda_only map_of_AddHandler_fresh)
  then show "map_option type_h
        (map_of (signals (Connect place t c st) (signal_of c)) (slot_of c))
       = Some (case c of
                 ConnectMember b s e r h type \<Rightarrow> default_argument type
               | ConnectConstMember b s e r h type \<Rightarrow> default_argument type
               | ConnectLambda b s e r l type \<Rightarrow> default_argument type
               | ConnectFunction s e h \<Rightarrow> DirectConnection
               | ConnectLambdaOnly s e l \<Rightarrow> DirectConnection)
     \<and> default_argument None = AutoConnection
     \<and> default_argument (Some k) = k"
    by (simp add: default_argument_def)
qed

theorem Connect_default_kind_witness:
  "count_u (signals (initial_state (all_on_thread 1)) (signal_of (ConnectMember True 1 2 5 6 None)))
     (slot_of (ConnectMember True 1 2 5 6 None)) = 0
   \<and> map_option type_h
       (map_of (signals (Connect place_front 1 (ConnectMember True 1 2 5 6 None)
                           (initial_state (all_on_thread 1)))
                  \<lparr>object_a = 1, function_a = 2\<rparr>)
          \<lparr>object_a = 5, function_a = 6\<rparr>) = Some AutoConnection"
proof -
  let ?c = "ConnectMember True 1 2 5 6 None"
  let ?st = "initial_state (all_on_thread 1)"
  have f: "count_u (signals ?st (signal_of ?c)) (slot_of ?c) = 0"
    by (simp add: initial_state_def count_u_def)
  have "map_option type_h (map_of (signals (Connect place_front 1 ?c ?st) (signal_of ?c))
          (slot_of ?c))
        = Some (case ?c of
                 ConnectMember b s e r h type \<Rightarrow> default_argument type
               | ConnectConstMember b s e r h type \<Rightarrow> default_argument type
               | ConnectLambda b s e r l type \<Rightarrow> default_argument type
               | ConnectFunction s e h \<Rightarrow> DirectConnection
               | ConnectLambdaOnly s e l \<Rightarrow> DirectConnection)"
    by (rule Connect_default_kind[of ?st ?c place_front 1 AutoConnection, rule_format,
          OF f, THEN conjunct1])
  also have "\<dots> = Some AutoConnection"
    by (simp add: default_argument_def)
  finally have "map_option type_h
       (map_of (signals (Connect place_front 1 ?c ?st) \<lparr>object_a = 1, function_a = 2\<rparr>)
          \<lparr>object_a = 5, function_a = 6\<rparr>) = Some AutoConnection"
    by simp
  with f show ?thesis by (simp only: simp_thms)
qed

section \<open>Claim C6: one handler per receiver address\<close>

text \<open>
  Claim C6. After any sequence of \<open>Connect\<close> calls on signals that started empty, every
  signal holds at most one handler per receiver address. In every state, a \<open>Connect\<close>
  whose receiver address is already present in the signal, made from any thread and
  with any connection kind, leaves every signal as it was: the handler set is not
  touched and the handler first stored stays. After a \<open>Connect\<close> the signal holds
  exactly one handler for that address, also when the same \<open>Connect\<close> is repeated; and
  an emit makes at most one call for the handlers filed under one address. An
  immediately repeated \<open>Connect\<close> also leaves the indices of both objects as they were.
\<close>

theorem Connect_one_handler_per_address:
  "count_u (signals (connect_all place cs (initial_state home)) sig) addr \<le> 1
   \<and> (count_u (signals st (signal_of c)) (slot_of c) \<noteq> 0 \<longrightarrow>
        signals (Connect place t c st) = signals st)
   \<and> count_u (signals (Connect place t c (connect_all place cs (initial_state home)))
        (signal_of c)) (slot_of c) = 1
   \<and> count_u (signals (Connect place t2 c
                (Connect place t1 c (connect_all place cs (initial_state home))))
        (signal_of c)) (slot_of c) = 1
   \<and> length (Emit t loops
        (filter (\<lambda>element. fst element = addr)
           (signals (connect_all place cs (initial_state home)) sig)) args) \<le> 1
   \<and> Connect place t2 c (Connect place t1 c st) = Connect place t1 c st"
proof -
  let ?st = "connect_all place cs (initial_state home)"
  have d: "distinct (map fst (signals ?st a))" for a
    by (rule distinct_reachable)
  have c1: "count_u (signals ?st sig) addr \<le> 1"
    using d by (rule count_u_le_one)
  have c2: "count_u (signals st (signal_of c)) (slot_of c) \<noteq> 0 \<longrightarrow>
        signals (Connect place t c st) = signals st"
    by (intro impI) (rule signals_Connect_present)
  have one: "count_u (signals (Connect place t' c ?st) (signal_of c)) (slot_of c) = 1" for t'
  proof -
    have "distinct (map fst (signals (Connect place t' c ?st) (signal_of c)))"
      using d by (rule distinct_Connect)
    then have "count_u (signals (Connect place t' c ?st) (signal_of c)) (slot_of c) \<le> 1"
      by (rule count_u_le_one)
    moreover have "count_u (signals (Connect place t' c ?st) (signal_of c)) (slot_of c) \<noteq> 0"
      by (rule count_u_Connect)
    ultimately show ?thesis by simp
  qed
  have c3: "count_u (signals (Connect place t2 c (Connect place t1 c ?st))
        (signal_of c)) (slot_of c) = 1"
    using one[of t1] by (simp only: Connect_idem)
  have c4: "length (Emit t loops
        (filter (\<lambda>element. fst element = addr) (signals ?st sig)) args) \<le> 1"
    using d by (rule length_Emit_key)
  have c5: "Connect place t2 c (Connect place t1 c st) = Connect place t1 c st"
    by (rule Connect_idem)
  from c1 c2 one[of t] c3 c4 c5 show ?thesis by (intro conjI)
qed

text \<open>
  The witness: the slot \<open>(20, 3)\<close> is connected to the signal \<open>(10, 2)\<close> and then to the
  signal \<open>(10, 4)\<close> of the same sender. Connecting it to \<open>(10, 2)\<close> again, now as Queued
  and from thread \<open>2\<close>, leaves the signals as they were: \<open>(10, 2)\<close> still holds the one
  Auto handler stored by the first call.
\<close>

theorem Connect_one_handler_per_address_witness:
  "count_u
     (signals (connect_all place_back
                 [(1, ConnectMember True 10 2 20 3 None), (1, ConnectMember True 10 4 20 3 None)]
                 (initial_state (all_on_thread 1)))
        (signal_of (ConnectMember True 10 2 20 3 (Some QueuedConnection))))
     (slot_of (ConnectMember True 10 2 20 3 (Some QueuedConnection))) \<noteq> 0
   \<and> signals (Connect place_back 2 (ConnectMember True 10 2 20 3 (Some QueuedConnection))
        (connect_all place_back
           [(1, ConnectMember True 10 2 20 3 None), (1, ConnectMember True 10 4 20 3 None)]
           (initial_state (all_on_thread 1))))
       \<lparr>object_a = 10, function_a = 2\<rparr>
     = [(\<lparr>object_a = 20, function_a = 3\<rparr>,
         \<lparr>id_h = 1, handler_h = MemberHandler 20 3, type_h = AutoConnection\<rparr>)]"
proof -
  let ?c = "ConnectMember True 10 2 20 3 (Some QueuedConnection)"
  let ?st = "connect_all place_back
               [(1, ConnectMember True 10 2 20 3 None), (1, ConnectMember True 10 4 20 3 None)]
               (initial_state (all_on_thread 1))"
  have s: "signals ?st \<lparr>object_a = 10, function_a = 2\<rparr>
             = [(\<lparr>object_a = 20, function_a = 3\<rparr>,
                 \<lparr>id_h = 1, handler_h = MemberHandler 20 3, type_h = AutoConnection\<rparr>)]"
    by (simp add: signals_Connect_member initial_state_def all_on_thread_def ThreadId_def
        default_argument_def AddHandler_def insert_u_def count_u_def place_back_def)
  have p: "count_u (signals ?st (signal_of ?c)) (slot_of ?c) \<noteq> 0"
    by (simp only: signal_of.simps slot_of.simps s count_u_def) simp
  have "signals (Connect place_back 2 ?c ?st) = signals ?st"
    by (rule Connect_one_handler_per_address[of place_back "[]" "all_on_thread 1"
          "\<lparr>object_a = 10, function_a = 2\<rparr>" "\<lparr>object_a = 20, function_a = 3\<rparr>" ?st ?c 2
          1 1 Map.empty "()",
          THEN conjunct2, THEN conjunct1, rule_format, OF p])
  then have e: "signals (Connect place_back 2 ?c ?st) \<lparr>object_a = 10, function_a = 2\<rparr>
               = signals ?st \<lparr>object_a = 10, function_a = 2\<rparr>"
    by (rule arg_cong[where f = "\<lambda>f. f \<lparr>object_a = 10, function_a = 2\<rparr>"])
  from e s have c: "signals (Connect place_back 2 ?c ?st) \<lparr>object_a = 10, function_a = 2\<rparr>
             = [(\<lparr>object_a = 20, function_a = 3\<rparr>,
                 \<lparr>id_h = 1, handler_h = MemberHandler 20 3, type_h = AutoConnection\<rparr>)]"
    by (rule trans)
  from p c show ?thesis by (intro conjI)
qed

text \<open>
  The indices of the objects are keyed differently from the handler set: the sender
  files its cleanup closure under the receiver address alone. In the state of the
  witness, connecting the slot to \<open>(10, 2)\<close> again replaces the closure that the second
  call stored in the sender: the signals stay, the sender's index does not.
\<close>

lemma Connect_again_rewrites_sender_index:
  "m_ReceiversList
     (objects (connect_all place_back
                 [(1, ConnectMember True 10 2 20 3 None), (1, ConnectMember True 10 4 20 3 None)]
                 (initial_state (all_on_thread 1))) 10)
     \<lparr>object_a = 20, function_a = 3\<rparr>
     = Some (ReceiverCleanup 20 \<lparr>object_a = 10, function_a = 4\<rparr> 3)
   \<and> m_ReceiversList
     (objects (Connect place_back 1 (ConnectMember True 10 2 20 3 None)
        (connect_all place_back
           [(1, ConnectMember True 10 2 20 3 None), (1, ConnectMember True 10 4 20 3 None)]
           (initial_state (all_on_thread 1)))) 10)
     \<lparr>object_a = 20, function_a = 3\<rparr>
     = Some (ReceiverCleanup 20 \<lparr>object_a = 10, function_a = 2\<rparr> 3)"
  by (simp add: Connect_member_def update_object_def update_signal_def Let_def
      AddReceiver_def AddSender_def initial_state_def)

section \<open>Claim C8: disconnecting twice\<close>

text \<open>
  Claim C8. \<open>Disconnect\<close> returns without an exception from every state, and a second
  call with the same arguments returns the state that the first call produced: the
  signal's handlers and the sender and receiver indices of both objects are the same.
  This holds for the member-function form (whether or not the endpoints are Objects,
  and whether or not the connection exists) and for the free-function form.
  \<open>RemoveHandler\<close> removes the entry of the address and only that entry, keeps the
  order of the others, and applying it twice is the same as applying it once.
\<close>

theorem Disconnect_idempotent:
  "(\<exists>st1. Disconnect_member b s e r h st = Inr st1
          \<and> Disconnect_member b s e r h st1 = Inr st1)
   \<and> Disconnect_function s e f (Disconnect_function s e f st) = Disconnect_function s e f st
   \<and> RemoveHandler a (RemoveHandler a m) = RemoveHandler a m
   \<and> RemoveHandler a m = filter (\<lambda>element. fst element \<noteq> a) m
   \<and> count_u (RemoveHandler a m) a = 0"
proof -
  from Disconnect_member_total[of b s e r h st] obtain st1 where
    st1: "Disconnect_member b s e r h st = Inr st1" by (elim exE)
  then have "Disconnect_member b s e r h st1 = Inr st1"
    by (rule Disconnect_member_idem)
  with st1 have c1: "\<exists>st1. Disconnect_member b s e r h st = Inr st1
          \<and> Disconnect_member b s e r h st1 = Inr st1"
    by (intro exI[of _ st1] conjI)
  have c2: "Disconnect_function s e f (Disconnect_function s e f st)
              = Disconnect_function s e f st"
    by (simp add: Disconnect_function_def update_signal_RemoveHandler_idem)
  from c1 c2 RemoveHandler_idem[of a m] RemoveHandler_filter[of a m]
    count_u_RemoveHandler[of a m]
  show ?thesis by (intro conjI)
qed

section \<open>Claim C10: the thread recorded in a handler\<close>



section \<open>Timers: registration and firing\<close>











section \<open>Claim C9: the loop on which a Timer is registered\<close>




end
